theory Spec2Isabelle
  imports Complex_Main "HOL-Library.Product_Lexorder"
begin

section \<open>Data model (src/models.ts)\<close>

text \<open>
  The interfaces of \<^verbatim>\<open>models.ts\<close> become records. TypeScript lets several interfaces
  share the field names \<^verbatim>\<open>id\<close>, \<^verbatim>\<open>sectionId\<close>, \<^verbatim>\<open>durationMin\<close>, \<^verbatim>\<open>type\<close> and \<^verbatim>\<open>label\<close>;
  here each field carries a prefix naming its interface (\<open>a_\<close> Activity, \<open>s_\<close> Section,
  \<open>r_\<close> ComputedRow, \<open>i_\<close> Injection). An optional field \<^verbatim>\<open>f?: T\<close> is a \<open>T option\<close>,
  \<open>None\<close> standing for \<^verbatim>\<open>undefined\<close>. Minutes are integers (\<open>int\<close>): the spec's data model
  speaks of integer minute offsets, and no operation of the scheduling core leaves the
  integers when its inputs are integers.
\<close>

type_synonym ID = string

record Activity =
  a_id :: ID
  a_title :: string
  a_owner :: string
  a_slideNumber :: "string option"
  a_durationMin :: int
  a_files :: "string option"
  a_details :: "string option"
  a_notes :: "string option"
  a_sectionId :: ID
  a_isSystem :: "bool option"
  a_systemKey :: "string option"
  a_completed :: "bool option"

record Section =
  s_id :: ID
  s_name :: string
  s_order :: int
  s_dayNumber :: "int option"

record DayConfig =
  dayStartMin :: int
  dayEndMin :: int
  numberOfDays :: "int option"
  breakIntervalMin :: "int option"
  breakDurationMin :: "int option"
  lunchTargetMin :: "int option"
  lunchDurationMin :: "int option"

datatype RowType = RActivity | RBreak | RLunch | ROverflow

text \<open>
  \<^verbatim>\<open>ComputedRow\<close> is a union discriminated by \<^verbatim>\<open>type\<close>; as in the JavaScript objects the
  variants share the base fields, an activity row carries \<open>r_activity\<close> and the
  synthesized rows carry \<open>r_label\<close>.
\<close>

record ComputedRow =
  r_id :: ID
  r_type :: RowType
  r_sectionId :: "ID option"
  r_startMin :: int
  r_endMin :: int
  r_computed :: bool
  r_activity :: "Activity option"
  r_label :: "string option"

datatype InjectionType = IBreak | ILunch

record Injection =
  i_id :: ID
  i_type :: InjectionType
  i_label :: string
  i_sectionId :: ID
  i_durationMin :: int
  i_anchorBeforeActivityId :: ID

section \<open>JavaScript helpers\<close>

text \<open>\<^verbatim>\<open>!!x\<close> for an optional number: \<^verbatim>\<open>undefined\<close> and \<^verbatim>\<open>0\<close> are falsy.\<close>

definition truthy :: "int option \<Rightarrow> bool" where
  "truthy x = (case x of None \<Rightarrow> False | Some v \<Rightarrow> v \<noteq> 0)"

text \<open>\<^verbatim>\<open>x ?? d\<close>: the default replaces only \<^verbatim>\<open>undefined\<close>.\<close>

definition orElse :: "'a option \<Rightarrow> 'a \<Rightarrow> 'a" where
  "orElse x d = (case x of None \<Rightarrow> d | Some v \<Rightarrow> v)"

text \<open>Template literals print an integer in decimal, with a leading minus sign.\<close>

definition digitChar :: "nat \<Rightarrow> char" where
  "digitChar d = char_of (48 + d)"

fun showNat :: "nat \<Rightarrow> string" where
  "showNat n = (if n < 10 then [digitChar n] else showNat (n div 10) @ [digitChar (n mod 10)])"

declare showNat.simps [simp del]

definition showInt :: "int \<Rightarrow> string" where
  "showInt i = (if i < 0 then CHR ''-'' # showNat (nat (- i)) else showNat (nat i))"

text \<open>\<^verbatim>\<open>String.prototype.toLowerCase\<close> on ASCII text.\<close>

definition toLowerChar :: "char \<Rightarrow> char" where
  "toLowerChar c = (let n = (of_char c :: nat) in if 65 \<le> n \<and> n \<le> 90 then char_of (n + 32) else c)"

definition toLowerCase :: "string \<Rightarrow> string" where
  "toLowerCase s = map toLowerChar s"

section \<open>Section/activity ordering shared by the walkers (src/utils/schedule.ts)\<close>

text \<open>
  \<^verbatim>\<open>[...sections].sort((a, b) => a.order - b.order)\<close>: \<^verbatim>\<open>Array.prototype.sort\<close> is stable,
  and so is the insertion sort \<^const>\<open>sort_key\<close>.
\<close>

definition orderSections :: "Section list \<Rightarrow> Section list" where
  "orderSections sections = sort_key s_order sections"

text \<open>
  \<^verbatim>\<open>new Map(orderedSections.map((s) => [s.id, []]))\<close> followed by
  \<^verbatim>\<open>for (const a of activities) bySection.get(a.sectionId)?.push(a)\<close>: an activity whose
  section id is not a key is skipped.
\<close>

definition emptyGroups :: "Section list \<Rightarrow> (ID \<rightharpoonup> Activity list)" where
  "emptyGroups orderedSections = map_of (map (\<lambda>s. (s_id s, [])) orderedSections)"

definition pushActivity :: "(ID \<rightharpoonup> Activity list) \<Rightarrow> Activity \<Rightarrow> (ID \<rightharpoonup> Activity list)" where
  "pushActivity m a =
     (case m (a_sectionId a) of
        None \<Rightarrow> m
      | Some list \<Rightarrow> m(a_sectionId a \<mapsto> list @ [a]))"

definition groupBySection :: "Section list \<Rightarrow> Activity list \<Rightarrow> (ID \<rightharpoonup> Activity list)" where
  "groupBySection orderedSections activities = foldl pushActivity (emptyGroups orderedSections) activities"

text \<open>\<^verbatim>\<open>bySection.get(section.id) || []\<close>\<close>

definition getList :: "(ID \<rightharpoonup> 'a list) \<Rightarrow> ID \<Rightarrow> 'a list" where
  "getList m k = (case m k of None \<Rightarrow> [] | Some list \<Rightarrow> list)"

section \<open>Direct Walker: computeSchedule\<close>

record WalkState =
  w_rows :: "ComputedRow list"
  w_clock :: int
  w_minutesSinceBreak :: int
  w_lunchInserted :: bool

text \<open>The closure \<^verbatim>\<open>pushBreak\<close> (lines 32-47): it appends a row and updates the clock and the break timer.\<close>

definition pushBreak :: "string \<Rightarrow> ID option \<Rightarrow> int \<Rightarrow> WalkState \<Rightarrow> WalkState" where
  "pushBreak label sectionId durationMin st =
     st\<lparr> w_rows := w_rows st @
            [\<lparr> r_id = label @ ''-'' @ showInt (w_clock st),
               r_type = (if toLowerCase label = ''lunch'' then RLunch else RBreak),
               r_sectionId = sectionId,
               r_startMin = w_clock st,
               r_endMin = w_clock st + durationMin,
               r_computed = True,
               r_activity = None,
               r_label = Some label \<rparr>],
         w_clock := w_clock st + durationMin,
         w_minutesSinceBreak := 0 \<rparr>"

definition needBreak :: "DayConfig \<Rightarrow> Activity \<Rightarrow> WalkState \<Rightarrow> bool" where
  "needBreak config activity st =
     (truthy (breakIntervalMin config) \<and> truthy (breakDurationMin config) \<and>
      w_minutesSinceBreak st + a_durationMin activity > the (breakIntervalMin config))"

definition crossesLunch :: "DayConfig \<Rightarrow> Activity \<Rightarrow> WalkState \<Rightarrow> bool" where
  "crossesLunch config activity st =
     (truthy (lunchTargetMin config) \<and> truthy (lunchDurationMin config) \<and>
      \<not> w_lunchInserted st \<and>
      w_clock st < the (lunchTargetMin config) \<and>
      w_clock st + a_durationMin activity > the (lunchTargetMin config))"

text \<open>Lines 67-72: the break or lunch that goes before the activity.\<close>

definition insertPause :: "DayConfig \<Rightarrow> Section \<Rightarrow> Activity \<Rightarrow> WalkState \<Rightarrow> WalkState" where
  "insertPause config section activity st =
     (if crossesLunch config activity st
      then (pushBreak ''Lunch'' (Some (s_id section)) (the (lunchDurationMin config)) st)
             \<lparr> w_lunchInserted := True \<rparr>
      else if needBreak config activity st
      then pushBreak ''Break'' (Some (s_id section)) (the (breakDurationMin config)) st
      else st)"

definition activityRow :: "Section \<Rightarrow> Activity \<Rightarrow> int \<Rightarrow> ComputedRow" where
  "activityRow section activity startMin =
     \<lparr> r_id = a_id activity,
       r_type = RActivity,
       r_sectionId = Some (s_id section),
       r_startMin = startMin,
       r_endMin = startMin + a_durationMin activity,
       r_computed = False,
       r_activity = Some activity,
       r_label = None \<rparr>"

text \<open>Lines 54-91: one iteration of the inner loop up to the overflow test.\<close>

definition placeActivity :: "DayConfig \<Rightarrow> Section \<Rightarrow> Activity \<Rightarrow> WalkState \<Rightarrow> WalkState" where
  "placeActivity config section activity st =
     (let st1 = insertPause config section activity st in
      st1\<lparr> w_rows := w_rows st1 @ [activityRow section activity (w_clock st1)],
           w_clock := w_clock st1 + a_durationMin activity,
           w_minutesSinceBreak := w_minutesSinceBreak st1 + a_durationMin activity \<rparr>)"

definition overflowRow :: "string \<Rightarrow> Section \<Rightarrow> int \<Rightarrow> int \<Rightarrow> int \<Rightarrow> ComputedRow" where
  "overflowRow label section idClock startMin endMin =
     \<lparr> r_id = ''overflow-'' @ showInt idClock,
       r_type = ROverflow,
       r_sectionId = Some (s_id section),
       r_startMin = startMin,
       r_endMin = endMin,
       r_computed = True,
       r_activity = None,
       r_label = Some label \<rparr>"

text \<open>
  The loops. \<open>Inl rows\<close> is the early \<^verbatim>\<open>return rows\<close> of line 105, \<open>Inr st\<close> the state with
  which the loop falls through.
\<close>

fun walkActivities :: "DayConfig \<Rightarrow> Section \<Rightarrow> WalkState \<Rightarrow> Activity list \<Rightarrow> ComputedRow list + WalkState" where
  "walkActivities config section st [] = Inr st"
| "walkActivities config section st (activity # rest) =
     (let st' = placeActivity config section activity st in
      if w_clock st' > dayEndMin config
      then Inl (w_rows st' @
                [overflowRow ''Runs past end of day'' section (w_clock st') (dayEndMin config) (w_clock st')])
      else walkActivities config section st' rest)"

fun walkSections :: "DayConfig \<Rightarrow> (ID \<rightharpoonup> Activity list) \<Rightarrow> WalkState \<Rightarrow> Section list \<Rightarrow> ComputedRow list + WalkState" where
  "walkSections config bySection st [] = Inr st"
| "walkSections config bySection st (section # rest) =
     (case walkActivities config section st (getList bySection (s_id section)) of
        Inl rows \<Rightarrow> Inl rows
      | Inr st' \<Rightarrow> walkSections config bySection st' rest)"

definition initWalk :: "DayConfig \<Rightarrow> WalkState" where
  "initWalk config = \<lparr> w_rows = [], w_clock = dayStartMin config, w_minutesSinceBreak = 0, w_lunchInserted = False \<rparr>"

text \<open>\<^verbatim>\<open>lastSection?.id ?? null\<close> (lines 118-119)\<close>

definition lastSectionId :: "Section list \<Rightarrow> ID option" where
  "lastSectionId orderedSections = (if orderedSections = [] then None else Some (s_id (last orderedSections)))"

text \<open>Lines 110-122: the lunch appended after a walk that inserted none.\<close>

definition finalLunchDue :: "DayConfig \<Rightarrow> WalkState \<Rightarrow> bool" where
  "finalLunchDue config st =
     (truthy (lunchTargetMin config) \<and> truthy (lunchDurationMin config) \<and>
      \<not> w_lunchInserted st \<and>
      w_clock st \<le> dayEndMin config \<and>
      the (lunchTargetMin config) \<ge> dayStartMin config)"

definition finishWalk :: "DayConfig \<Rightarrow> Section list \<Rightarrow> WalkState \<Rightarrow> ComputedRow list" where
  "finishWalk config orderedSections st =
     (if finalLunchDue config st
      then w_rows (pushBreak ''Lunch'' (lastSectionId orderedSections) (the (lunchDurationMin config)) st)
      else w_rows st)"

definition computeSchedule :: "DayConfig \<Rightarrow> Section list \<Rightarrow> Activity list \<Rightarrow> ComputedRow list" where
  "computeSchedule config sections activities =
     (let orderedSections = orderSections sections;
          activitiesBySection = groupBySection orderedSections activities
      in case walkSections config activitiesBySection (initWalk config) orderedSections of
           Inl rows \<Rightarrow> rows
         | Inr st \<Rightarrow> finishWalk config orderedSections st)"

section \<open>Injection Planner: planInjections\<close>

text \<open>
  The planner's local variables. \<open>p_days\<close> is a ghost field: it records, for each entry of
  \<open>p_injections\<close>, the value of \<^verbatim>\<open>dayIndex\<close> at the moment of the \<^verbatim>\<open>push\<close>. No function below
  reads it; it only lets the theorems speak about the simulated day of an injection.
\<close>

record PlanState =
  p_injections :: "Injection list"
  p_days :: "int list"
  p_dayIndex :: int
  p_clockWithinDay :: int
  p_minutesSinceBreak :: int
  p_lunchPlanned :: bool
  p_preLunchBreakPlanned :: bool
  p_afterLunchStarted :: bool
  p_postLunchBreakPlanned :: bool
  p_lastActivityIdAfterLunch :: "ID option"

definition pushInjection :: "Injection \<Rightarrow> PlanState \<Rightarrow> PlanState" where
  "pushInjection injection st =
     st\<lparr> p_injections := p_injections st @ [injection], p_days := p_days st @ [p_dayIndex st] \<rparr>"

text \<open>Truthiness of \<^verbatim>\<open>lastActivityIdAfterLunch\<close>: \<^verbatim>\<open>null\<close> and the empty string are falsy.\<close>

definition truthyId :: "ID option \<Rightarrow> bool" where
  "truthyId x = (case x of None \<Rightarrow> False | Some i \<Rightarrow> i \<noteq> [])"

text \<open>The condition of lines 155 and 257.\<close>

definition postBreakOwed :: "DayConfig \<Rightarrow> PlanState \<Rightarrow> bool" where
  "postBreakOwed config st =
     (p_afterLunchStarted st \<and> \<not> p_postLunchBreakPlanned st \<and>
      truthyId (p_lastActivityIdAfterLunch st) \<and>
      truthy (breakDurationMin config) \<and> truthy (breakIntervalMin config))"

definition postBreakInjection :: "DayConfig \<Rightarrow> ID \<Rightarrow> PlanState \<Rightarrow> Injection" where
  "postBreakInjection config sectionId st =
     \<lparr> i_id = ''inj-break-post-'' @ the (p_lastActivityIdAfterLunch st),
       i_type = IBreak,
       i_label = ''Break'',
       i_sectionId = sectionId,
       i_durationMin = the (breakDurationMin config),
       i_anchorBeforeActivityId = the (p_lastActivityIdAfterLunch st) \<rparr>"

text \<open>Lines 153-178; \<open>Inl st\<close> is the \<^verbatim>\<open>return injections\<close> of line 168.\<close>

definition planRollover :: "DayConfig \<Rightarrow> int \<Rightarrow> int \<Rightarrow> Section \<Rightarrow> Activity \<Rightarrow> PlanState \<Rightarrow> PlanState + PlanState" where
  "planRollover config numDays dayLen section activity st =
     (if p_clockWithinDay st + a_durationMin activity > dayLen
      then
        (let st1 = (if postBreakOwed config st
                    then (pushInjection (postBreakInjection config (s_id section) st) st)
                           \<lparr> p_postLunchBreakPlanned := True \<rparr>
                    else st)
         in if p_dayIndex st1 + 1 \<ge> numDays
            then Inl st1
            else Inr (st1\<lparr> p_dayIndex := p_dayIndex st1 + 1,
                           p_clockWithinDay := 0,
                           p_minutesSinceBreak := 0,
                           p_lunchPlanned := False,
                           p_preLunchBreakPlanned := False,
                           p_afterLunchStarted := False,
                           p_postLunchBreakPlanned := False,
                           p_lastActivityIdAfterLunch := None \<rparr>))
      else Inr st)"

definition crossesBreak :: "DayConfig \<Rightarrow> Activity \<Rightarrow> PlanState \<Rightarrow> bool" where
  "crossesBreak config activity st =
     (truthy (breakIntervalMin config) \<and> truthy (breakDurationMin config) \<and>
      p_minutesSinceBreak st + a_durationMin activity > the (breakIntervalMin config))"

definition planCrossesLunch :: "DayConfig \<Rightarrow> Activity \<Rightarrow> PlanState \<Rightarrow> bool" where
  "planCrossesLunch config activity st =
     (truthy (lunchTargetMin config) \<and> truthy (lunchDurationMin config) \<and>
      \<not> p_lunchPlanned st \<and>
      the (lunchTargetMin config) - dayStartMin config > 0 \<and>
      p_clockWithinDay st < the (lunchTargetMin config) - dayStartMin config \<and>
      p_clockWithinDay st + a_durationMin activity > the (lunchTargetMin config) - dayStartMin config)"

definition planInjection :: "string \<Rightarrow> InjectionType \<Rightarrow> string \<Rightarrow> ID \<Rightarrow> int \<Rightarrow> ID \<Rightarrow> Injection" where
  "planInjection idPrefix type label sectionId durationMin anchor =
     \<lparr> i_id = idPrefix @ anchor,
       i_type = type,
       i_label = label,
       i_sectionId = sectionId,
       i_durationMin = durationMin,
       i_anchorBeforeActivityId = anchor \<rparr>"

text \<open>Lines 193-231: the injections anchored before the activity.\<close>

definition planAnchor :: "DayConfig \<Rightarrow> Section \<Rightarrow> Activity \<Rightarrow> PlanState \<Rightarrow> PlanState" where
  "planAnchor config section activity st =
     (if planCrossesLunch config activity st
      then
        (let st1 = (if \<not> p_preLunchBreakPlanned st \<and>
                       truthy (breakDurationMin config) \<and> truthy (breakIntervalMin config)
                    then (pushInjection
                            (planInjection ''inj-break-pre-'' IBreak ''Break'' (s_id section)
                               (the (breakDurationMin config)) (a_id activity)) st)
                           \<lparr> p_preLunchBreakPlanned := True \<rparr>
                    else st)
         in (pushInjection
               (planInjection ''inj-lunch-'' ILunch ''Lunch'' (s_id section)
                  (the (lunchDurationMin config)) (a_id activity)) st1)
              \<lparr> p_clockWithinDay := p_clockWithinDay st1 + the (lunchDurationMin config),
                p_minutesSinceBreak := 0,
                p_lunchPlanned := True,
                p_afterLunchStarted := True,
                p_lastActivityIdAfterLunch := None \<rparr>)
      else if crossesBreak config activity st
      then
        (pushInjection
           (planInjection ''inj-break-'' IBreak ''Break'' (s_id section)
              (the (breakDurationMin config)) (a_id activity)) st)
          \<lparr> p_clockWithinDay := p_clockWithinDay st + the (breakDurationMin config),
            p_minutesSinceBreak := 0,
            p_postLunchBreakPlanned := (if p_afterLunchStarted st then True else p_postLunchBreakPlanned st) \<rparr>
      else st)"

text \<open>Lines 233-236.\<close>

definition planAdvance :: "Activity \<Rightarrow> PlanState \<Rightarrow> PlanState" where
  "planAdvance activity st =
     st\<lparr> p_clockWithinDay := p_clockWithinDay st + a_durationMin activity,
         p_minutesSinceBreak := p_minutesSinceBreak st + a_durationMin activity,
         p_lastActivityIdAfterLunch :=
           (if p_afterLunchStarted st then Some (a_id activity) else p_lastActivityIdAfterLunch st) \<rparr>"

definition planActivity :: "DayConfig \<Rightarrow> int \<Rightarrow> int \<Rightarrow> Section \<Rightarrow> Activity \<Rightarrow> PlanState \<Rightarrow> PlanState + PlanState" where
  "planActivity config numDays dayLen section activity st =
     (case planRollover config numDays dayLen section activity st of
        Inl st' \<Rightarrow> Inl st'
      | Inr st' \<Rightarrow> Inr (planAdvance activity (planAnchor config section activity st')))"

fun planActivities :: "DayConfig \<Rightarrow> int \<Rightarrow> int \<Rightarrow> Section \<Rightarrow> PlanState \<Rightarrow> Activity list \<Rightarrow> PlanState + PlanState" where
  "planActivities config numDays dayLen section st [] = Inr st"
| "planActivities config numDays dayLen section st (activity # rest) =
     (case planActivity config numDays dayLen section activity st of
        Inl st' \<Rightarrow> Inl st'
      | Inr st' \<Rightarrow> planActivities config numDays dayLen section st' rest)"

fun planSections :: "DayConfig \<Rightarrow> int \<Rightarrow> int \<Rightarrow> (ID \<rightharpoonup> Activity list) \<Rightarrow> PlanState \<Rightarrow> Section list \<Rightarrow> PlanState + PlanState" where
  "planSections config numDays dayLen bySection st [] = Inr st"
| "planSections config numDays dayLen bySection st (section # rest) =
     (case planActivities config numDays dayLen section st (getList bySection (s_id section)) of
        Inl st' \<Rightarrow> Inl st'
      | Inr st' \<Rightarrow> planSections config numDays dayLen bySection st' rest)"

definition initPlan :: PlanState where
  "initPlan =
     \<lparr> p_injections = [], p_days = [], p_dayIndex = 0, p_clockWithinDay = 0,
       p_minutesSinceBreak = 0, p_lunchPlanned = False, p_preLunchBreakPlanned = False,
       p_afterLunchStarted = False, p_postLunchBreakPlanned = False,
       p_lastActivityIdAfterLunch = None \<rparr>"

text \<open>Lines 240-254: the lunch forced for the last day.\<close>

definition forceLunch :: "DayConfig \<Rightarrow> int \<Rightarrow> Section list \<Rightarrow> (ID \<rightharpoonup> Activity list) \<Rightarrow> PlanState \<Rightarrow> PlanState" where
  "forceLunch config numDays orderedSections bySection st =
     (if truthy (lunchTargetMin config) \<and> truthy (lunchDurationMin config) \<and>
         \<not> p_lunchPlanned st \<and> orderedSections \<noteq> [] \<and> p_dayIndex st < numDays
      then
        (case getList bySection (s_id (last orderedSections)) of
           [] \<Rightarrow> st
         | first # _ \<Rightarrow>
             pushInjection
               (planInjection ''inj-lunch-'' ILunch ''Lunch'' (s_id (last orderedSections))
                  (the (lunchDurationMin config)) (a_id first)) st)
      else st)"

text \<open>
  Lines 256-266. The section of the row is
  \<^verbatim>\<open>orderedSections[orderedSections.length - 1]?.id ?? (activities[0]?.sectionId as ID)\<close>.
  With no section and no activity the source would store \<^verbatim>\<open>undefined\<close>; the model writes
  the empty string there. That case is never reached: with no section the loops place no
  activity, so \<^verbatim>\<open>afterLunchStarted\<close> is still false.
\<close>

definition fallbackSectionId :: "Section list \<Rightarrow> Activity list \<Rightarrow> ID" where
  "fallbackSectionId orderedSections activities =
     (if orderedSections \<noteq> [] then s_id (last orderedSections)
      else (case activities of [] \<Rightarrow> [] | a # _ \<Rightarrow> a_sectionId a))"

definition finalPostBreak :: "DayConfig \<Rightarrow> Section list \<Rightarrow> Activity list \<Rightarrow> PlanState \<Rightarrow> PlanState" where
  "finalPostBreak config orderedSections activities st =
     (if postBreakOwed config st
      then pushInjection (postBreakInjection config (fallbackSectionId orderedSections activities) st) st
      else st)"

text \<open>\<^verbatim>\<open>Math.max(1, config.numberOfDays ?? 1)\<close> and \<^verbatim>\<open>Math.max(1, config.dayEndMin - config.dayStartMin)\<close>\<close>

definition numDaysOf :: "DayConfig \<Rightarrow> int" where
  "numDaysOf config = max 1 (orElse (numberOfDays config) 1)"

definition dayLenOf :: "DayConfig \<Rightarrow> int" where
  "dayLenOf config = max 1 (dayEndMin config - dayStartMin config)"

text \<open>The state after the two nested loops, \<open>Inl\<close> when line 168 returned.\<close>

definition planWalk :: "DayConfig \<Rightarrow> Section list \<Rightarrow> Activity list \<Rightarrow> PlanState + PlanState" where
  "planWalk config sections activities =
     (let orderedSections = orderSections sections;
          bySection = groupBySection orderedSections activities
      in planSections config (numDaysOf config) (dayLenOf config) bySection initPlan orderedSections)"

text \<open>The planner's state when it returns; \<^verbatim>\<open>planInjections\<close> returns its injection list.\<close>

definition planFinal :: "DayConfig \<Rightarrow> Section list \<Rightarrow> Activity list \<Rightarrow> PlanState" where
  "planFinal config sections activities =
     (let orderedSections = orderSections sections;
          bySection = groupBySection orderedSections activities
      in case planWalk config sections activities of
           Inl st \<Rightarrow> st
         | Inr st \<Rightarrow>
             finalPostBreak config orderedSections activities
               (forceLunch config (numDaysOf config) orderedSections bySection st))"

definition planInjections :: "DayConfig \<Rightarrow> Section list \<Rightarrow> Activity list \<Rightarrow> Injection list" where
  "planInjections config sections activities = p_injections (planFinal config sections activities)"

section \<open>Injection Renderer: buildScheduleWithInjections\<close>

text \<open>
  Lines 283-287: \<^verbatim>\<open>injMap\<close> groups the injections by their own \<^verbatim>\<open>sectionId\<close>, in list order.
\<close>

definition addInjection :: "(ID \<rightharpoonup> Injection list) \<Rightarrow> Injection \<Rightarrow> (ID \<rightharpoonup> Injection list)" where
  "addInjection m x =
     (let m1 = (case m (i_sectionId x) of None \<Rightarrow> m(i_sectionId x \<mapsto> []) | Some _ \<Rightarrow> m)
      in m1(i_sectionId x \<mapsto> getList m1 (i_sectionId x) @ [x]))"

definition groupInjections :: "Injection list \<Rightarrow> (ID \<rightharpoonup> Injection list)" where
  "groupInjections injections = foldl addInjection Map.empty injections"

text \<open>
  Line 288 sorts every group with
  \<^verbatim>\<open>(a, b) => a.anchorBeforeActivityId.localeCompare(b.anchorBeforeActivityId)\<close>.
  \<^verbatim>\<open>localeCompare\<close> belongs to the JavaScript runtime and depends on the locale, so the
  comparison is a parameter of the model. The sort is stable: an element goes before the
  first element that it does not compare greater than.
\<close>

fun insertByAnchor :: "(ID \<Rightarrow> ID \<Rightarrow> int) \<Rightarrow> Injection \<Rightarrow> Injection list \<Rightarrow> Injection list" where
  "insertByAnchor localeCompare x [] = [x]"
| "insertByAnchor localeCompare x (y # ys) =
     (if localeCompare (i_anchorBeforeActivityId x) (i_anchorBeforeActivityId y) \<le> 0
      then x # y # ys
      else y # insertByAnchor localeCompare x ys)"

definition sortByAnchor :: "(ID \<Rightarrow> ID \<Rightarrow> int) \<Rightarrow> Injection list \<Rightarrow> Injection list" where
  "sortByAnchor localeCompare xs = foldr (insertByAnchor localeCompare) xs []"

definition sortedInjMap :: "(ID \<Rightarrow> ID \<Rightarrow> int) \<Rightarrow> Injection list \<Rightarrow> (ID \<rightharpoonup> Injection list)" where
  "sortedInjMap localeCompare injections =
     (\<lambda>sid. map_option (sortByAnchor localeCompare) (groupInjections injections sid))"

record RenderState =
  b_rows :: "ComputedRow list"
  b_dayIndex :: int
  b_clock :: int

text \<open>
  Lines 303-320 and again lines 325-340: an item of \<open>durationMin\<close> minutes that would end
  after the day's end goes to the next day, or ends the schedule with an overflow row
  (\<open>Inl\<close>, the \<^verbatim>\<open>return rows\<close>) when no day is left.
\<close>

definition carryToNextDay :: "DayConfig \<Rightarrow> int \<Rightarrow> Section \<Rightarrow> int \<Rightarrow> RenderState \<Rightarrow> ComputedRow list + RenderState" where
  "carryToNextDay config numDays section durationMin st =
     (if b_clock st + durationMin > dayEndMin config
      then
        (if b_dayIndex st + 1 \<ge> numDays
         then Inl (b_rows st @
                   [overflowRow ''Runs past end of schedule'' section (b_clock st)
                      (dayEndMin config) (b_clock st + durationMin)])
         else Inr (st\<lparr> b_dayIndex := b_dayIndex st + 1, b_clock := dayStartMin config \<rparr>))
      else Inr st)"

definition injectionRow :: "Section \<Rightarrow> Injection \<Rightarrow> int \<Rightarrow> ComputedRow" where
  "injectionRow section x startMin =
     \<lparr> r_id = i_id x,
       r_type = (case i_type x of IBreak \<Rightarrow> RBreak | ILunch \<Rightarrow> RLunch),
       r_sectionId = Some (s_id section),
       r_startMin = startMin,
       r_endMin = startMin + i_durationMin x,
       r_computed = True,
       r_activity = None,
       r_label = Some (i_label x) \<rparr>"

text \<open>Lines 323-354: the loop over the injections anchored before one activity.\<close>

fun renderInjections :: "DayConfig \<Rightarrow> int \<Rightarrow> Section \<Rightarrow> RenderState \<Rightarrow> Injection list \<Rightarrow> ComputedRow list + RenderState" where
  "renderInjections config numDays section st [] = Inr st"
| "renderInjections config numDays section st (x # rest) =
     (case carryToNextDay config numDays section (i_durationMin x) st of
        Inl rows \<Rightarrow> Inl rows
      | Inr st1 \<Rightarrow>
          renderInjections config numDays section
            (st1\<lparr> b_rows := b_rows st1 @ [injectionRow section x (b_clock st1)],
                  b_clock := b_clock st1 + i_durationMin x \<rparr>)
            rest)"

text \<open>Lines 300-368: one activity with the injections anchored before it.\<close>

definition renderActivity :: "DayConfig \<Rightarrow> int \<Rightarrow> Section \<Rightarrow> Injection list \<Rightarrow> Activity \<Rightarrow> RenderState \<Rightarrow> ComputedRow list + RenderState" where
  "renderActivity config numDays section sectionInj activity st =
     (case carryToNextDay config numDays section (a_durationMin activity) st of
        Inl rows \<Rightarrow> Inl rows
      | Inr st1 \<Rightarrow>
          (case renderInjections config numDays section st1
                  (filter (\<lambda>x. i_anchorBeforeActivityId x = a_id activity) sectionInj) of
             Inl rows \<Rightarrow> Inl rows
           | Inr st2 \<Rightarrow>
               Inr (st2\<lparr> b_rows := b_rows st2 @ [activityRow section activity (b_clock st2)],
                         b_clock := b_clock st2 + a_durationMin activity \<rparr>)))"

fun renderActivities :: "DayConfig \<Rightarrow> int \<Rightarrow> Section \<Rightarrow> Injection list \<Rightarrow> RenderState \<Rightarrow> Activity list \<Rightarrow> ComputedRow list + RenderState" where
  "renderActivities config numDays section sectionInj st [] = Inr st"
| "renderActivities config numDays section sectionInj st (activity # rest) =
     (case renderActivity config numDays section sectionInj activity st of
        Inl rows \<Rightarrow> Inl rows
      | Inr st' \<Rightarrow> renderActivities config numDays section sectionInj st' rest)"

fun renderSections :: "DayConfig \<Rightarrow> int \<Rightarrow> (ID \<rightharpoonup> Activity list) \<Rightarrow> (ID \<rightharpoonup> Injection list) \<Rightarrow> RenderState \<Rightarrow> Section list \<Rightarrow> ComputedRow list + RenderState" where
  "renderSections config numDays bySection injMap st [] = Inr st"
| "renderSections config numDays bySection injMap st (section # rest) =
     (case renderActivities config numDays section (getList injMap (s_id section)) st
             (getList bySection (s_id section)) of
        Inl rows \<Rightarrow> Inl rows
      | Inr st' \<Rightarrow> renderSections config numDays bySection injMap st' rest)"

definition initRender :: "DayConfig \<Rightarrow> RenderState" where
  "initRender config = \<lparr> b_rows = [], b_dayIndex = 0, b_clock = dayStartMin config \<rparr>"

definition buildScheduleWithInjections ::
    "(ID \<Rightarrow> ID \<Rightarrow> int) \<Rightarrow> DayConfig \<Rightarrow> Section list \<Rightarrow> Activity list \<Rightarrow> Injection list \<Rightarrow> ComputedRow list" where
  "buildScheduleWithInjections localeCompare config sections activities injections =
     (let orderedSections = orderSections sections;
          bySection = groupBySection orderedSections activities;
          injMap = sortedInjMap localeCompare injections
      in case renderSections config (numDaysOf config) bySection injMap (initRender config) orderedSections of
           Inl rows \<Rightarrow> rows
         | Inr st \<Rightarrow> b_rows st)"

section \<open>Day-Partitioned Walker: buildScheduleFromActivities\<close>

text \<open>Lines 383-388: sections ordered by day number (1 when absent), then by order.\<close>

definition orderSectionsByDay :: "Section list \<Rightarrow> Section list" where
  "orderSectionsByDay sections = sort_key (\<lambda>s. (orElse (s_dayNumber s) 1, s_order s)) sections"

record DayState =
  d_rows :: "ComputedRow list"
  d_dayIndex :: int
  d_clock :: int
  d_minutesSinceBreak :: int
  d_currentDayNumber :: int

text \<open>Lines 401-408.\<close>

definition enterSection :: "DayConfig \<Rightarrow> Section \<Rightarrow> DayState \<Rightarrow> DayState" where
  "enterSection config section st =
     (let secDay = orElse (s_dayNumber section) (d_currentDayNumber st) in
      if secDay \<noteq> d_currentDayNumber st
      then st\<lparr> d_currentDayNumber := secDay,
               d_dayIndex := secDay - 1,
               d_clock := dayStartMin config,
               d_minutesSinceBreak := 0 \<rparr>
      else st)"

text \<open>\<^verbatim>\<open>activity.isSystem && activity.systemKey?.startsWith('lunch:day')\<close>\<close>

definition isLunchEntry :: "Activity \<Rightarrow> bool" where
  "isLunchEntry activity =
     (a_isSystem activity = Some True \<and>
      (case a_systemKey activity of None \<Rightarrow> False | Some k \<Rightarrow> take 9 k = ''lunch:day''))"

text \<open>Lines 410-432: the body of the inner loop.\<close>

definition appendActivity :: "Section \<Rightarrow> Activity \<Rightarrow> DayState \<Rightarrow> DayState" where
  "appendActivity section activity st =
     st\<lparr> d_rows := d_rows st @ [activityRow section activity (d_clock st)],
         d_clock := d_clock st + a_durationMin activity,
         d_minutesSinceBreak :=
           (if isLunchEntry activity then 0 else d_minutesSinceBreak st + a_durationMin activity) \<rparr>"

fun appendActivities :: "Section \<Rightarrow> DayState \<Rightarrow> Activity list \<Rightarrow> DayState" where
  "appendActivities section st [] = st"
| "appendActivities section st (activity # rest) =
     appendActivities section (appendActivity section activity st) rest"

fun daySections :: "DayConfig \<Rightarrow> (ID \<rightharpoonup> Activity list) \<Rightarrow> DayState \<Rightarrow> Section list \<Rightarrow> DayState" where
  "daySections config bySection st [] = st"
| "daySections config bySection st (section # rest) =
     daySections config bySection
       (appendActivities section (enterSection config section st) (getList bySection (s_id section)))
       rest"

definition initDay :: "DayConfig \<Rightarrow> Section list \<Rightarrow> DayState" where
  "initDay config orderedSections =
     \<lparr> d_rows = [], d_dayIndex = 0, d_clock = dayStartMin config, d_minutesSinceBreak = 0,
       d_currentDayNumber =
         (case orderedSections of [] \<Rightarrow> 1 | first # _ \<Rightarrow> orElse (s_dayNumber first) 1) \<rparr>"

definition buildScheduleFromActivities :: "DayConfig \<Rightarrow> Section list \<Rightarrow> Activity list \<Rightarrow> ComputedRow list" where
  "buildScheduleFromActivities config sections activities =
     (let orderedSections = orderSectionsByDay sections;
          bySection = groupBySection orderedSections activities
      in d_rows (daySections config bySection (initDay config orderedSections) orderedSections))"

section \<open>Time codec: parseTimeToMin (src/utils/time.ts)\<close>

subsection \<open>Texts\<close>

text \<open>
  A JavaScript string is a sequence of UTF-16 code units. The texts of the time codec are
  lists of code units, each an integer from 0 to 65535; \<open>units\<close> writes an ASCII literal as
  such a list.
\<close>

type_synonym codeUnit = int

definition units :: "string \<Rightarrow> codeUnit list" where
  "units s = map (\<lambda>c. int (of_char c)) s"

text \<open>\<^verbatim>\<open>value.split(':')\<close>: the pieces between the separators; the empty text gives one empty piece.\<close>

fun splitOn :: "codeUnit \<Rightarrow> codeUnit list \<Rightarrow> codeUnit list list" where
  "splitOn sep [] = [[]]"
| "splitOn sep (c # cs) =
     (if c = sep then [] # splitOn sep cs
      else (case splitOn sep cs of [] \<Rightarrow> [[c]] | p # ps \<Rightarrow> (c # p) # ps))"

subsection \<open>Number values\<close>

text \<open>
  A JavaScript number is an IEEE 754 double: \<^verbatim>\<open>NaN\<close>, an infinity with its sign, or a finite
  value with its sign (\<open>True\<close> for minus, so that \<open>Finite True 0\<close> is \<^verbatim>\<open>-0\<close>) and its magnitude,
  a rational number.
\<close>

datatype number = NaN | Infinite bool | Finite bool rat

definition ofInt :: "int \<Rightarrow> number" where
  "ofInt i = Finite (i < 0) (of_int \<bar>i\<bar>)"

text \<open>
  Rounding to the nearest double, ties to even. A magnitude \<open>a > 0\<close> with
  \<open>2 ^ e \<le> a < 2 ^ (e + 1)\<close> is rounded to a multiple of \<open>2 ^ (e - 52)\<close>; below the normal
  range (\<open>e < -1022\<close>) the step is \<open>2 ^ -1074\<close>. The multiple is \<open>2 ^ 1024\<close> or more, and the
  result infinite, when \<open>e > 1023\<close> or when \<open>e = 1023\<close> and the multiplier has reached \<open>2 ^ 53\<close>.
\<close>

function bitLength :: "int \<Rightarrow> nat" where
  "bitLength n = (if n \<le> 0 then 0 else Suc (bitLength (n div 2)))"
  by pat_completeness auto

termination bitLength
  by (relation "measure nat") auto

declare bitLength.simps [simp del]

definition twoTo :: "int \<Rightarrow> rat" where
  "twoTo k = (if 0 \<le> k then 2 ^ nat k else 1 / 2 ^ nat (- k))"

definition binaryExponent :: "rat \<Rightarrow> int" where
  "binaryExponent a =
     (if 1 \<le> a then int (bitLength \<lfloor>a\<rfloor>) - 1
      else - int (bitLength (\<lceil>1 / a\<rceil> - 1)))"

definition roundHalfEven :: "rat \<Rightarrow> int" where
  "roundHalfEven x =
     (let f = \<lfloor>x\<rfloor>; d = x - of_int f in
      if d < 1 / 2 then f
      else if 1 / 2 < d then f + 1
      else if even f then f else f + 1)"

definition roundMagnitude :: "rat \<Rightarrow> rat option" where
  "roundMagnitude a =
     (if a = 0 then Some 0
      else
        (let e = max (binaryExponent a) (- 1022);
             step = twoTo (e - 52);
             m = roundHalfEven (a / step)
         in if 1023 < e \<or> (e = 1023 \<and> 2 ^ 53 \<le> m) then None else Some (of_int m * step)))"

definition toDouble :: "bool \<Rightarrow> rat \<Rightarrow> number" where
  "toDouble negative a = (case roundMagnitude a of None \<Rightarrow> Infinite negative | Some r \<Rightarrow> Finite negative r)"

text \<open>The operators \<^verbatim>\<open>*\<close> and \<^verbatim>\<open>+\<close> on numbers.\<close>

definition isZero :: "number \<Rightarrow> bool" where
  "isZero x = (case x of Finite _ m \<Rightarrow> m = 0 | _ \<Rightarrow> False)"

definition isNegative :: "number \<Rightarrow> bool" where
  "isNegative x = (case x of NaN \<Rightarrow> False | Infinite s \<Rightarrow> s | Finite s _ \<Rightarrow> s)"

definition signedValue :: "number \<Rightarrow> rat" where
  "signedValue x = (case x of Finite s m \<Rightarrow> (if s then - m else m) | _ \<Rightarrow> 0)"

definition numberTimes :: "number \<Rightarrow> number \<Rightarrow> number" where
  "numberTimes x y =
     (case (x, y) of
        (NaN, _) \<Rightarrow> NaN
      | (_, NaN) \<Rightarrow> NaN
      | (Infinite s, _) \<Rightarrow> if isZero y then NaN else Infinite (s \<noteq> isNegative y)
      | (_, Infinite s) \<Rightarrow> if isZero x then NaN else Infinite (isNegative x \<noteq> s)
      | (Finite s a, Finite t b) \<Rightarrow> toDouble (s \<noteq> t) (a * b))"

definition numberPlus :: "number \<Rightarrow> number \<Rightarrow> number" where
  "numberPlus x y =
     (case (x, y) of
        (NaN, _) \<Rightarrow> NaN
      | (_, NaN) \<Rightarrow> NaN
      | (Infinite s, Infinite t) \<Rightarrow> if s = t then Infinite s else NaN
      | (Infinite s, _) \<Rightarrow> Infinite s
      | (_, Infinite t) \<Rightarrow> Infinite t
      | (Finite s a, Finite t b) \<Rightarrow>
          (let v = signedValue x + signedValue y in
           if v = 0 then Finite (s \<and> t) 0 else toDouble (v < 0) \<bar>v\<bar>))"

subsection \<open>Number(text)\<close>

text \<open>
  \<^verbatim>\<open>Number(text)\<close> is ECMAScript's StringToNumber. White space and line terminators around
  the text are dropped; the empty text is \<open>+0\<close>; what remains must be a StrNumericLiteral:
  a binary, octal or hexadecimal integer with its prefix, or an optionally signed
  \<^verbatim>\<open>Infinity\<close> or decimal literal (digits, an optional fraction, an optional exponent).
  Anything else is \<^verbatim>\<open>NaN\<close>. The value of a literal is its mathematical value rounded to
  the nearest double.
\<close>

definition isStrWhiteSpace :: "codeUnit \<Rightarrow> bool" where
  "isStrWhiteSpace c =
     (c \<in> set [9, 10, 11, 12, 13, 32, 160, 5760, 8232, 8233, 8239, 8287, 12288, 65279] \<or>
      (8192 \<le> c \<and> c \<le> 8202))"

definition trimWhiteSpace :: "codeUnit list \<Rightarrow> codeUnit list" where
  "trimWhiteSpace s = rev (dropWhile isStrWhiteSpace (rev (dropWhile isStrWhiteSpace s)))"

definition digitValue :: "codeUnit \<Rightarrow> int" where
  "digitValue c =
     (if 48 \<le> c \<and> c \<le> 57 then c - 48
      else if 97 \<le> c \<and> c \<le> 102 then c - 87
      else if 65 \<le> c \<and> c \<le> 70 then c - 55
      else 16)"

definition isDigitOf :: "int \<Rightarrow> codeUnit \<Rightarrow> bool" where
  "isDigitOf radix c = (digitValue c < radix)"

definition isDigit :: "codeUnit \<Rightarrow> bool" where
  "isDigit c = isDigitOf 10 c"

definition digitsValue :: "int \<Rightarrow> codeUnit list \<Rightarrow> int" where
  "digitsValue radix ds = foldl (\<lambda>acc c. acc * radix + digitValue c) 0 ds"

definition decimalValue :: "codeUnit list \<Rightarrow> int" where
  "decimalValue ds = digitsValue 10 ds"

definition tenTo :: "int \<Rightarrow> rat" where
  "tenTo k = (if 0 \<le> k then 10 ^ nat k else 1 / 10 ^ nat (- k))"

text \<open>\<^verbatim>\<open>0b\<close>, \<^verbatim>\<open>0o\<close> and \<^verbatim>\<open>0x\<close> literals: at least one digit of the radix, and nothing else.\<close>

definition nonDecimalLiteral :: "int \<Rightarrow> codeUnit list \<Rightarrow> number" where
  "nonDecimalLiteral radix ds =
     (if ds \<noteq> [] \<and> list_all (isDigitOf radix) ds
      then toDouble False (of_int (digitsValue radix ds))
      else NaN)"

text \<open>The text after the exponent indicator: an optionally signed run of digits.\<close>

definition decimalDigits :: "codeUnit list \<Rightarrow> int option" where
  "decimalDigits ds = (if ds \<noteq> [] \<and> list_all isDigit ds then Some (decimalValue ds) else None)"

definition signedInteger :: "codeUnit list \<Rightarrow> int option" where
  "signedInteger es =
     (case es of
        [] \<Rightarrow> None
      | c # ds \<Rightarrow>
          if c = 43 then decimalDigits ds
          else if c = 45 then map_option uminus (decimalDigits ds)
          else decimalDigits es)"

text \<open>
  StrUnsignedDecimalLiteral: \<^verbatim>\<open>Infinity\<close>, or digits with an optional fraction and an
  optional exponent, with at least one digit before or after the point.
\<close>

definition unsignedDecimalLiteral :: "bool \<Rightarrow> codeUnit list \<Rightarrow> number" where
  "unsignedDecimalLiteral negative t =
     (if t = units ''Infinity'' then Infinite negative
      else
        (let whole = takeWhile isDigit t;
             afterWhole = dropWhile isDigit t;
             hasPoint = (afterWhole \<noteq> [] \<and> hd afterWhole = 46);
             fraction = (if hasPoint then takeWhile isDigit (tl afterWhole) else []);
             afterFraction = (if hasPoint then dropWhile isDigit (tl afterWhole) else afterWhole);
             exponent = (case afterFraction of
                           [] \<Rightarrow> Some 0
                         | c # es \<Rightarrow> if c = 101 \<or> c = 69 then signedInteger es else None)
         in if whole = [] \<and> fraction = [] then NaN
            else (case exponent of
                    None \<Rightarrow> NaN
                  | Some e \<Rightarrow>
                      toDouble negative
                        ((of_int (decimalValue whole) +
                          of_int (decimalValue fraction) / 10 ^ length fraction) * tenTo e))))"

definition strDecimalLiteral :: "codeUnit list \<Rightarrow> number" where
  "strDecimalLiteral t =
     (case t of
        [] \<Rightarrow> NaN
      | c # ds \<Rightarrow>
          if c = 43 then unsignedDecimalLiteral False ds
          else if c = 45 then unsignedDecimalLiteral True ds
          else unsignedDecimalLiteral False t)"

definition strNumericLiteral :: "codeUnit list \<Rightarrow> number" where
  "strNumericLiteral t =
     (case t of
        c # d # ds \<Rightarrow>
          if c = 48 \<and> (d = 98 \<or> d = 66) then nonDecimalLiteral 2 ds
          else if c = 48 \<and> (d = 111 \<or> d = 79) then nonDecimalLiteral 8 ds
          else if c = 48 \<and> (d = 120 \<or> d = 88) then nonDecimalLiteral 16 ds
          else strDecimalLiteral t
      | _ \<Rightarrow> strDecimalLiteral t)"

definition toNumber :: "codeUnit list \<Rightarrow> number" where
  "toNumber s =
     (let t = trimWhiteSpace s in
      if t = [] then Finite False 0 else strNumericLiteral t)"

subsection \<open>parseTimeToMin\<close>

text \<open>
  Lines 4-13 of \<^verbatim>\<open>time.ts\<close>. \<^verbatim>\<open>Number\<close> belongs to the JavaScript runtime and is a parameter
  of the model; \<open>toNumber\<close> above stands for it in the examples. \<open>None\<close> is \<^verbatim>\<open>null\<close>.
\<close>

definition parseTimeToMin :: "(codeUnit list \<Rightarrow> number) \<Rightarrow> codeUnit list \<Rightarrow> number option" where
  "parseTimeToMin Number value =
     (if value = [] then None
      else
        (let parts = splitOn 58 value in
         if length parts < 2 then None
         else
           (let h = Number (parts ! 0);
                m = Number (parts ! 1)
            in if h = NaN \<or> m = NaN then None
               else Some (numberPlus (numberTimes h (ofInt 60)) m))))"

section \<open>Vocabulary of the statements\<close>

text \<open>
  The definitions of this section are not part of the program: they name what the
  theorems talk about (the order in which the walkers visit activities, the rows one loop
  iteration appends, the state a walk reaches when nothing stops it).
\<close>

definition walkPairs :: "(ID \<rightharpoonup> Activity list) \<Rightarrow> Section list \<Rightarrow> (Section \<times> Activity) list" where
  "walkPairs bySection orderedSections =
     concat (map (\<lambda>s. map (Pair s) (getList bySection (s_id s))) orderedSections)"

definition walkOrder :: "Section list \<Rightarrow> Activity list \<Rightarrow> (Section \<times> Activity) list" where
  "walkOrder sections activities =
     walkPairs (groupBySection (orderSections sections) activities) (orderSections sections)"

fun placeAll :: "DayConfig \<Rightarrow> WalkState \<Rightarrow> (Section \<times> Activity) list \<Rightarrow> WalkState" where
  "placeAll config st [] = st"
| "placeAll config st ((s, a) # rest) = placeAll config (placeActivity config s a st) rest"

fun withinDay :: "DayConfig \<Rightarrow> WalkState \<Rightarrow> (Section \<times> Activity) list \<Rightarrow> bool" where
  "withinDay config st [] = True"
| "withinDay config st ((s, a) # rest) =
     (w_clock (placeActivity config s a st) \<le> dayEndMin config \<and>
      withinDay config (placeActivity config s a st) rest)"

fun walkFlat :: "DayConfig \<Rightarrow> WalkState \<Rightarrow> (Section \<times> Activity) list \<Rightarrow> ComputedRow list + WalkState" where
  "walkFlat config st [] = Inr st"
| "walkFlat config st ((s, a) # rest) =
     (let st' = placeActivity config s a st in
      if w_clock st' > dayEndMin config
      then Inl (w_rows st' @
                [overflowRow ''Runs past end of day'' s (w_clock st') (dayEndMin config) (w_clock st')])
      else walkFlat config st' rest)"


definition emitted :: "DayConfig \<Rightarrow> Section \<Rightarrow> Activity \<Rightarrow> WalkState \<Rightarrow> ComputedRow list" where
  "emitted config s a st = drop (length (w_rows st)) (w_rows (placeActivity config s a st))"

definition lunchRow :: "ID option \<Rightarrow> int \<Rightarrow> int \<Rightarrow> ComputedRow" where
  "lunchRow sectionId startMin durationMin =
     \<lparr> r_id = ''Lunch-'' @ showInt startMin, r_type = RLunch, r_sectionId = sectionId,
       r_startMin = startMin, r_endMin = startMin + durationMin, r_computed = True,
       r_activity = None, r_label = Some ''Lunch'' \<rparr>"

definition breakRow :: "ID option \<Rightarrow> int \<Rightarrow> int \<Rightarrow> ComputedRow" where
  "breakRow sectionId startMin durationMin =
     \<lparr> r_id = ''Break-'' @ showInt startMin, r_type = RBreak, r_sectionId = sectionId,
       r_startMin = startMin, r_endMin = startMin + durationMin, r_computed = True,
       r_activity = None, r_label = Some ''Break'' \<rparr>"


definition directWalk :: "DayConfig \<Rightarrow> Section list \<Rightarrow> Activity list \<Rightarrow> ComputedRow list + WalkState" where
  "directWalk config sections activities =
     walkSections config (groupBySection (orderSections sections) activities) (initWalk config)
       (orderSections sections)"







text \<open>What the theorems on the Injection Renderer ask of \<^verbatim>\<open>localeCompare\<close>: a text compares equal to itself.\<close>

definition reflexiveCompare :: "(ID \<Rightarrow> ID \<Rightarrow> int) \<Rightarrow> bool" where
  "reflexiveCompare localeCompare = (\<forall>i. localeCompare i i = 0)"


text \<open>A loop result: the rows of an early return satisfy \<open>P\<close>, the state of a completed loop \<open>Q\<close>.\<close>

definition outcome :: "(ComputedRow list \<Rightarrow> bool) \<Rightarrow> ('s \<Rightarrow> bool) \<Rightarrow> ComputedRow list + 's \<Rightarrow> bool" where
  "outcome P Q res = (case res of Inl rows \<Rightarrow> P rows | Inr st \<Rightarrow> Q st)"


text \<open>
  The rows of consecutive activities from a given start: each begins where the one before
  it ended.
\<close>

fun contiguousRows :: "Section \<Rightarrow> int \<Rightarrow> Activity list \<Rightarrow> ComputedRow list" where
  "contiguousRows section startMin [] = []"
| "contiguousRows section startMin (a # rest) =
     activityRow section a startMin # contiguousRows section (startMin + a_durationMin a) rest"

text \<open>Each row starts where the row before it ended, or at the day's start.\<close>

fun chained :: "int \<Rightarrow> ComputedRow list \<Rightarrow> bool" where
  "chained dayStart [] = True"
| "chained dayStart [r] = True"
| "chained dayStart (q # r # rest) =
     ((r_startMin r = r_endMin q \<or> r_startMin r = dayStart) \<and> chained dayStart (r # rest))"

text \<open>The loop invariant behind \<open>chained\<close>.\<close>

definition chainInv :: "int \<Rightarrow> DayState \<Rightarrow> bool" where
  "chainInv ds st =
     (chained ds (d_rows st) \<and>
      (d_rows st = [] \<or> d_clock st = r_endMin (last (d_rows st)) \<or> d_clock st = ds))"


text \<open>
  The order in which the Day-Partitioned Walker visits the activities, each with the day
  tracked while its section is walked: the day number of the section or, for a section
  without one, the day tracked before it. The walk starts with the day of the first
  section (1 when it has none).
\<close>

definition dayKey :: "Section \<Rightarrow> int" where
  "dayKey s = orElse (s_dayNumber s) 1"

fun dayWalk :: "(ID \<rightharpoonup> Activity list) \<Rightarrow> int \<Rightarrow> Section list \<Rightarrow> (int \<times> Section \<times> Activity) list" where
  "dayWalk bySection day [] = []"
| "dayWalk bySection day (s # rest) =
     map (\<lambda>a. (orElse (s_dayNumber s) day, s, a)) (getList bySection (s_id s)) @
     dayWalk bySection (orElse (s_dayNumber s) day) rest"

definition firstDay :: "Section list \<Rightarrow> int" where
  "firstDay orderedSections =
     (case orderedSections of [] \<Rightarrow> 1 | first # _ \<Rightarrow> orElse (s_dayNumber first) 1)"

definition dayWalkOrder :: "Section list \<Rightarrow> Activity list \<Rightarrow> (int \<times> Section \<times> Activity) list" where
  "dayWalkOrder sections activities =
     dayWalk (groupBySection (orderSectionsByDay sections) activities)
       (firstDay (orderSectionsByDay sections)) (orderSectionsByDay sections)"

text \<open>
  The minutes of the entries of one day, and the row of entry \<open>k\<close> of a walk: it starts at
  the day's start plus the minutes of the entries of the same day walked before it.
\<close>

definition dayMinutes :: "int \<Rightarrow> (int \<times> Section \<times> Activity) list \<Rightarrow> int" where
  "dayMinutes day entries =
     sum_list (map (\<lambda>e. a_durationMin (snd (snd e))) (filter (\<lambda>e. fst e = day) entries))"

definition dayRow :: "int \<Rightarrow> (int \<times> Section \<times> Activity) list \<Rightarrow> nat \<Rightarrow> ComputedRow" where
  "dayRow dayStart walk k =
     (case walk ! k of
        (day, s, a) \<Rightarrow> activityRow s a (dayStart + dayMinutes day (take k walk)))"

definition dayRows :: "int \<Rightarrow> (int \<times> Section \<times> Activity) list \<Rightarrow> ComputedRow list" where
  "dayRows dayStart walk = map (dayRow dayStart walk) [0..<length walk]"

text \<open>The loop invariant behind \<open>dayRows\<close>, and what it asks of the sections still to walk.\<close>

definition closedInv :: "int \<Rightarrow> DayState \<Rightarrow> (int \<times> Section \<times> Activity) list \<Rightarrow> bool" where
  "closedInv dayStart st walked =
     (d_rows st = dayRows dayStart walked \<and>
      d_clock st = dayStart + dayMinutes (d_currentDayNumber st) walked \<and>
      (\<forall>e\<in>set walked. fst e \<le> d_currentDayNumber st))"

definition daysAhead :: "int \<Rightarrow> Section list \<Rightarrow> bool" where
  "daysAhead day secs = (sorted (map dayKey secs) \<and> (\<forall>s\<in>set secs. day \<le> dayKey s))"

text \<open>
  The parts of a time text: the hour part is the text before the first colon, the minute
  part the text between the first colon and the next one (or the end).
\<close>

definition hasColon :: "codeUnit list \<Rightarrow> bool" where
  "hasColon str = (58 \<in> set str)"

definition hourPart :: "codeUnit list \<Rightarrow> codeUnit list" where
  "hourPart str = takeWhile (\<lambda>c. c \<noteq> 58) str"

definition minutePart :: "codeUnit list \<Rightarrow> codeUnit list" where
  "minutePart str = takeWhile (\<lambda>c. c \<noteq> 58) (drop 1 (dropWhile (\<lambda>c. c \<noteq> 58) str))"

text \<open>
  The spec's reading of a malformed time text: no colon, or an hour or minute part that is
  not a number written in digits.
\<close>

definition digitsOnly :: "codeUnit list \<Rightarrow> bool" where
  "digitsOnly s = (s \<noteq> [] \<and> list_all isDigit s)"

definition malformedTime :: "codeUnit list \<Rightarrow> bool" where
  "malformedTime str =
     (\<not> hasColon str \<or> \<not> digitsOnly (hourPart str) \<or> \<not> digitsOnly (minutePart str))"

text \<open>\<^verbatim>\<open>H:MM\<close> or \<^verbatim>\<open>HH:MM\<close>: one or two hour digits and two minute digits.\<close>

definition clockText :: "codeUnit list \<Rightarrow> codeUnit list \<Rightarrow> bool" where
  "clockText hs ms =
     ((length hs = 1 \<or> length hs = 2) \<and> list_all isDigit hs \<and> length ms = 2 \<and> list_all isDigit ms)"

text \<open>The integers that a double holds exactly, up to \<^verbatim>\<open>Number.MAX_SAFE_INTEGER\<close>.\<close>

definition safeInteger :: "int \<Rightarrow> bool" where
  "safeInteger i = (\<bar>i\<bar> < 2 ^ 53)"







section \<open>Example inputs\<close>

definition exampleActivity :: "ID \<Rightarrow> int \<Rightarrow> ID \<Rightarrow> Activity" where
  "exampleActivity i d sid =
     \<lparr> a_id = i, a_title = ''Activity'', a_owner = ''Host'', a_slideNumber = None,
       a_durationMin = d, a_files = None, a_details = None, a_notes = None,
       a_sectionId = sid, a_isSystem = None, a_systemKey = None, a_completed = None \<rparr>"

definition exampleSection :: "ID \<Rightarrow> int \<Rightarrow> int option \<Rightarrow> Section" where
  "exampleSection i ord day = \<lparr> s_id = i, s_name = ''Section'', s_order = ord, s_dayNumber = day \<rparr>"

definition exampleConfig :: "int \<Rightarrow> int \<Rightarrow> int option \<Rightarrow> int option \<Rightarrow> int option \<Rightarrow> int option \<Rightarrow> int option \<Rightarrow> DayConfig" where
  "exampleConfig dayStart dayEnd days breakInterval breakDuration lunchTarget lunchDuration =
     \<lparr> dayStartMin = dayStart, dayEndMin = dayEnd, numberOfDays = days,
       breakIntervalMin = breakInterval, breakDurationMin = breakDuration,
       lunchTargetMin = lunchTarget, lunchDurationMin = lunchDuration \<rparr>"

definition exampleInjection :: "ID \<Rightarrow> InjectionType \<Rightarrow> ID \<Rightarrow> int \<Rightarrow> ID \<Rightarrow> Injection" where
  "exampleInjection i ty sid d anchor =
     \<lparr> i_id = i, i_type = ty, i_label = (case ty of IBreak \<Rightarrow> ''Break'' | ILunch \<Rightarrow> ''Lunch''),
       i_sectionId = sid, i_durationMin = d, i_anchorBeforeActivityId = anchor \<rparr>"

text \<open>A comparison of texts by code units, standing for \<^verbatim>\<open>localeCompare\<close> in the examples.\<close>

fun codeUnitCompare :: "ID \<Rightarrow> ID \<Rightarrow> int" where
  "codeUnitCompare [] [] = 0"
| "codeUnitCompare [] (y # ys) = - 1"
| "codeUnitCompare (x # xs) [] = 1"
| "codeUnitCompare (x # xs) (y # ys) =
     (if (of_char x :: nat) < of_char y then - 1
      else if (of_char y :: nat) < of_char x then 1
      else codeUnitCompare xs ys)"


text \<open>One section on one day with activities of 20, 45 and 30 minutes, a break every 60 minutes.\<close>

definition oneSection :: "Section list" where
  "oneSection = [exampleSection ''s1'' 1 None]"

definition threeActivities :: "Activity list" where
  "threeActivities =
     [exampleActivity ''a1'' 20 ''s1'', exampleActivity ''a2'' 45 ''s1'', exampleActivity ''a3'' 30 ''s1'']"

definition breakConfig :: DayConfig where
  "breakConfig = exampleConfig 540 960 None (Some 60) (Some 15) None None"

definition oneInjection :: "Injection list" where
  "oneInjection = [exampleInjection ''inj-break-a2'' IBreak ''s1'' 15 ''a2'']"




text \<open>A day from 9:00 to 10:00 that the second of three activities overruns.\<close>

definition shortDayConfig :: DayConfig where
  "shortDayConfig = exampleConfig 540 600 None None None None None"

text \<open>Three sections on days 1, 2 and 2 with one activity each.\<close>

definition threeSections :: "Section list" where
  "threeSections =
     [exampleSection ''s1'' 1 (Some 1), exampleSection ''s2'' 2 (Some 2), exampleSection ''s3'' 3 (Some 2)]"

definition threeSectionActivities :: "Activity list" where
  "threeSectionActivities =
     [exampleActivity ''a1'' 20 ''s1'', exampleActivity ''a2'' 45 ''s2'', exampleActivity ''a3'' 30 ''s3'']"

text \<open>Lunch at 9:10 or at 9:20 for an hour, before a 20 minute activity that starts at 9:00.\<close>

definition lunchConfig :: "int \<Rightarrow> DayConfig" where
  "lunchConfig target = exampleConfig 540 960 None None None (Some target) (Some 60)"

text \<open>A day from 9:00 to 10:00 with the lunch target at 12:00, after the day's end.\<close>

definition lateLunchConfig :: DayConfig where
  "lateLunchConfig = exampleConfig 540 600 None None None (Some 720) (Some 60)"

text \<open>An injection whose anchor is no activity, and an activity whose section is no section.\<close>

definition orphanInjection :: Injection where
  "orphanInjection = exampleInjection ''inj-lunch-gone'' ILunch ''s1'' 60 ''gone''"

definition strayActivity :: Activity where
  "strayActivity = exampleActivity ''a9'' 25 ''nowhere''"

definition lunchDayConfig :: DayConfig where
  "lunchDayConfig = exampleConfig 540 960 (Some 1) (Some 60) (Some 15) (Some 570) (Some 60)"












section \<open>Vocabulary of the planner's statements\<close>

text \<open>The injections of a planner state, each with the simulated day on which it was pushed.\<close>

definition tagged :: "PlanState \<Rightarrow> (int \<times> Injection) list" where
  "tagged st = zip (p_days st) (p_injections st)"






definition breaksConfigured :: "DayConfig \<Rightarrow> bool" where
  "breaksConfigured config = (truthy (breakDurationMin config) \<and> truthy (breakIntervalMin config))"









text \<open>The parts of the planner's loop body, named.\<close>

definition backfilled :: "DayConfig \<Rightarrow> Section \<Rightarrow> PlanState \<Rightarrow> PlanState" where
  "backfilled config section st =
     (if postBreakOwed config st
      then (pushInjection (postBreakInjection config (s_id section) st) st)
             \<lparr> p_postLunchBreakPlanned := True \<rparr>
      else st)"

definition nextDay :: "PlanState \<Rightarrow> PlanState" where
  "nextDay st =
     st\<lparr> p_dayIndex := p_dayIndex st + 1, p_clockWithinDay := 0, p_minutesSinceBreak := 0,
         p_lunchPlanned := False, p_preLunchBreakPlanned := False, p_afterLunchStarted := False,
         p_postLunchBreakPlanned := False, p_lastActivityIdAfterLunch := None \<rparr>"

definition lunchAnchored :: "DayConfig \<Rightarrow> Section \<Rightarrow> Activity \<Rightarrow> PlanState \<Rightarrow> PlanState" where
  "lunchAnchored config section activity st =
     (pushInjection
        (planInjection ''inj-lunch-'' ILunch ''Lunch'' (s_id section)
           (the (lunchDurationMin config)) (a_id activity)) st)
       \<lparr> p_clockWithinDay := p_clockWithinDay st + the (lunchDurationMin config),
         p_minutesSinceBreak := 0,
         p_lunchPlanned := True,
         p_afterLunchStarted := True,
         p_lastActivityIdAfterLunch := None \<rparr>"

definition preBreakAnchored :: "DayConfig \<Rightarrow> Section \<Rightarrow> Activity \<Rightarrow> PlanState \<Rightarrow> PlanState" where
  "preBreakAnchored config section activity st =
     (pushInjection
        (planInjection ''inj-break-pre-'' IBreak ''Break'' (s_id section)
           (the (breakDurationMin config)) (a_id activity)) st)
       \<lparr> p_preLunchBreakPlanned := True \<rparr>"

definition breakAnchored :: "DayConfig \<Rightarrow> Section \<Rightarrow> Activity \<Rightarrow> PlanState \<Rightarrow> PlanState" where
  "breakAnchored config section activity st =
     (pushInjection
        (planInjection ''inj-break-'' IBreak ''Break'' (s_id section)
           (the (breakDurationMin config)) (a_id activity)) st)
       \<lparr> p_clockWithinDay := p_clockWithinDay st + the (breakDurationMin config),
         p_minutesSinceBreak := 0,
         p_postLunchBreakPlanned := (if p_afterLunchStarted st then True else p_postLunchBreakPlanned st) \<rparr>"

section \<open>Shared lemmas\<close>

lemma toLowerCase_Lunch: "toLowerCase ''Lunch'' = ''lunch''" by code_simp
lemma toLowerCase_Break: "toLowerCase ''Break'' \<noteq> ''lunch''" by code_simp

lemma pushBreak_Lunch:
  "pushBreak ''Lunch'' sid d st =
     st\<lparr> w_rows := w_rows st @
            [\<lparr> r_id = ''Lunch-'' @ showInt (w_clock st), r_type = RLunch, r_sectionId = sid,
               r_startMin = w_clock st, r_endMin = w_clock st + d, r_computed = True,
               r_activity = None, r_label = Some ''Lunch'' \<rparr>],
         w_clock := w_clock st + d, w_minutesSinceBreak := 0 \<rparr>"
  by (simp add: pushBreak_def toLowerCase_Lunch)

lemma pushBreak_Break:
  "pushBreak ''Break'' sid d st =
     st\<lparr> w_rows := w_rows st @
            [\<lparr> r_id = ''Break-'' @ showInt (w_clock st), r_type = RBreak, r_sectionId = sid,
               r_startMin = w_clock st, r_endMin = w_clock st + d, r_computed = True,
               r_activity = None, r_label = Some ''Break'' \<rparr>],
         w_clock := w_clock st + d, w_minutesSinceBreak := 0 \<rparr>"
  using toLowerCase_Break by (simp add: pushBreak_def)

subsection \<open>Grouping\<close>

lemma emptyGroups_lookup:
  "emptyGroups ordered k = (if k \<in> s_id ` set ordered then Some [] else None)"
  unfolding emptyGroups_def by (induction ordered) auto

lemma pushActivity_lookup:
  "pushActivity m a k =
     (case m k of None \<Rightarrow> None | Some l \<Rightarrow> Some (if a_sectionId a = k then l @ [a] else l))"
  by (simp add: pushActivity_def split: option.splits)

lemma foldl_pushActivity_lookup:
  "foldl pushActivity m acts k =
     (case m k of None \<Rightarrow> None | Some l \<Rightarrow> Some (l @ filter (\<lambda>a. a_sectionId a = k) acts))"
proof (induction acts arbitrary: m)
  case Nil
  show ?case by (simp split: option.splits)
next
  case (Cons a acts)
  have "foldl pushActivity m (a # acts) k = foldl pushActivity (pushActivity m a) acts k"
    by simp
  also have "\<dots> = (case pushActivity m a k of None \<Rightarrow> None
                    | Some l \<Rightarrow> Some (l @ filter (\<lambda>a. a_sectionId a = k) acts))"
    by (rule Cons.IH)
  also have "\<dots> = (case m k of None \<Rightarrow> None
                    | Some l \<Rightarrow> Some (l @ filter (\<lambda>a. a_sectionId a = k) (a # acts)))"
    by (simp add: pushActivity_lookup split: option.splits)
  finally show ?case .
qed

lemma groupBySection_lookup:
  "groupBySection ordered acts k =
     (if k \<in> s_id ` set ordered then Some (filter (\<lambda>a. a_sectionId a = k) acts) else None)"
  by (simp only: groupBySection_def foldl_pushActivity_lookup emptyGroups_lookup) simp

lemma getList_groupBySection:
  "getList (groupBySection ordered acts) k =
     (if k \<in> s_id ` set ordered then filter (\<lambda>a. a_sectionId a = k) acts else [])"
  by (simp add: getList_def groupBySection_lookup)

lemma pushActivity_unknown:
  "m (a_sectionId a) = None \<Longrightarrow> pushActivity m a = m"
  by (simp add: pushActivity_def)

lemma groupBySection_drop_unknown:
  assumes "a_sectionId a \<notin> s_id ` set ordered"
  shows "groupBySection ordered (pre @ a # post) = groupBySection ordered (pre @ post)"
proof (rule ext)
  fix k
  show "groupBySection ordered (pre @ a # post) k = groupBySection ordered (pre @ post) k"
    using assms by (auto simp: groupBySection_lookup)
qed

lemma set_orderSections: "set (orderSections sections) = set sections"
  by (simp add: orderSections_def)

lemma set_orderSectionsByDay: "set (orderSectionsByDay sections) = set sections"
  by (simp add: orderSectionsByDay_def)

subsection \<open>Flat walk\<close>

lemma walkFlat_append_section:
  "walkFlat config st (map (Pair s) as @ rest) =
     (case walkActivities config s st as of Inl rows \<Rightarrow> Inl rows | Inr st' \<Rightarrow> walkFlat config st' rest)"
  by (induction as arbitrary: st) (simp_all add: Let_def)

lemma walkSections_flat:
  "walkSections config bySection st secs = walkFlat config st (walkPairs bySection secs)"
proof (induction secs arbitrary: st)
  case Nil
  show ?case by (simp add: walkPairs_def)
next
  case (Cons s secs)
  have "walkPairs bySection (s # secs) = map (Pair s) (getList bySection (s_id s)) @ walkPairs bySection secs"
    by (simp add: walkPairs_def)
  then show ?case
    by (simp add: walkFlat_append_section Cons.IH split: sum.splits)
qed

lemma walkFlat_within:
  "withinDay config st ps \<Longrightarrow> walkFlat config st ps = Inr (placeAll config st ps)"
  by (induction ps arbitrary: st) (auto simp: Let_def)

lemma walkFlat_within_append:
  "withinDay config st pre \<Longrightarrow> walkFlat config st (pre @ rest) = walkFlat config (placeAll config st pre) rest"
  by (induction pre arbitrary: st) (auto simp: Let_def)

lemma placeAll_append: "placeAll config st (xs @ ys) = placeAll config (placeAll config st xs) ys"
  by (induction xs arbitrary: st) auto

lemma walkFlat_Inr_iff:
  "walkFlat config st ps = Inr st' \<longleftrightarrow> withinDay config st ps \<and> st' = placeAll config st ps"
proof (induction ps arbitrary: st)
  case Nil
  show ?case by auto
next
  case (Cons p ps)
  obtain s a where p: "p = (s, a)" by (cases p)
  show ?case
    by (cases "w_clock (placeActivity config s a st) > dayEndMin config")
       (simp_all add: p Let_def Cons.IH)
qed



subsection \<open>One iteration of the Direct Walker\<close>

lemma pushBreak_Lunch_row:
  "pushBreak ''Lunch'' sid d st =
     st\<lparr> w_rows := w_rows st @ [lunchRow sid (w_clock st) d],
         w_clock := w_clock st + d, w_minutesSinceBreak := 0 \<rparr>"
  by (simp add: pushBreak_Lunch lunchRow_def)

lemma pushBreak_Break_row:
  "pushBreak ''Break'' sid d st =
     st\<lparr> w_rows := w_rows st @ [breakRow sid (w_clock st) d],
         w_clock := w_clock st + d, w_minutesSinceBreak := 0 \<rparr>"
  by (simp add: pushBreak_Break breakRow_def)

lemma placeActivity_lunch:
  assumes "crossesLunch config a st"
  shows "placeActivity config s a st =
     st\<lparr> w_rows := w_rows st @
            [lunchRow (Some (s_id s)) (w_clock st) (the (lunchDurationMin config)),
             activityRow s a (w_clock st + the (lunchDurationMin config))],
         w_clock := w_clock st + the (lunchDurationMin config) + a_durationMin a,
         w_minutesSinceBreak := a_durationMin a,
         w_lunchInserted := True \<rparr>"
  using assms by (simp add: placeActivity_def insertPause_def pushBreak_Lunch_row Let_def)

lemma placeActivity_break:
  assumes "\<not> crossesLunch config a st" "needBreak config a st"
  shows "placeActivity config s a st =
     st\<lparr> w_rows := w_rows st @
            [breakRow (Some (s_id s)) (w_clock st) (the (breakDurationMin config)),
             activityRow s a (w_clock st + the (breakDurationMin config))],
         w_clock := w_clock st + the (breakDurationMin config) + a_durationMin a,
         w_minutesSinceBreak := a_durationMin a \<rparr>"
  using assms by (simp add: placeActivity_def insertPause_def pushBreak_Break_row Let_def)

lemma placeActivity_plain:
  assumes "\<not> crossesLunch config a st" "\<not> needBreak config a st"
  shows "placeActivity config s a st =
     st\<lparr> w_rows := w_rows st @ [activityRow s a (w_clock st)],
         w_clock := w_clock st + a_durationMin a,
         w_minutesSinceBreak := w_minutesSinceBreak st + a_durationMin a \<rparr>"
  using assms by (simp add: placeActivity_def insertPause_def Let_def)

lemma placeActivity_cases:
  obtains (lunch) "crossesLunch config a st"
    | (break) "\<not> crossesLunch config a st" "needBreak config a st"
    | (plain) "\<not> crossesLunch config a st" "\<not> needBreak config a st"
  by blast

lemma emitted_append: "w_rows (placeActivity config s a st) = w_rows st @ emitted config s a st"
  by (cases rule: placeActivity_cases[of config a st])
     (simp_all add: emitted_def placeActivity_lunch placeActivity_break placeActivity_plain)

lemma emitted_lunch:
  "crossesLunch config a st \<Longrightarrow>
     emitted config s a st =
       [lunchRow (Some (s_id s)) (w_clock st) (the (lunchDurationMin config)),
        activityRow s a (w_clock st + the (lunchDurationMin config))]"
  by (simp add: emitted_def placeActivity_lunch)

lemma emitted_no_lunch:
  "\<not> crossesLunch config a st \<Longrightarrow> RLunch \<notin> r_type ` set (emitted config s a st)"
  by (cases "needBreak config a st")
     (simp_all add: emitted_def placeActivity_break placeActivity_plain breakRow_def activityRow_def)

lemma lunchInserted_no_lunch:
  "\<not> crossesLunch config a st \<Longrightarrow> w_lunchInserted (placeActivity config s a st) = w_lunchInserted st"
  by (cases "needBreak config a st") (simp_all add: placeActivity_break placeActivity_plain)

subsection \<open>The whole walk\<close>

lemma computeSchedule_directWalk:
  "computeSchedule config sections activities =
     (case directWalk config sections activities of
        Inl rows \<Rightarrow> rows
      | Inr st \<Rightarrow> finishWalk config (orderSections sections) st)"
  by (simp add: computeSchedule_def directWalk_def Let_def)

lemma directWalk_flat:
  "directWalk config sections activities =
     walkFlat config (initWalk config) (walkOrder sections activities)"
  by (simp add: directWalk_def walkOrder_def walkSections_flat)

lemma withinDay_clock:
  "withinDay config st ps \<Longrightarrow> ps \<noteq> [] \<Longrightarrow> w_clock (placeAll config st ps) \<le> dayEndMin config"
proof (induction ps arbitrary: st)
  case Nil
  then show ?case by simp
next
  case (Cons p ps)
  obtain s a where p: "p = (s, a)" by (cases p)
  show ?case
  proof (cases "ps = []")
    case True
    with Cons.prems p show ?thesis by simp
  next
    case False
    with Cons.prems p Cons.IH[of "placeActivity config s a st"] show ?thesis by simp
  qed
qed

lemma placeActivity_keeps_no_lunch:
  assumes "\<not> w_lunchInserted (placeActivity config s a st)"
  shows "\<not> w_lunchInserted st \<and> RLunch \<notin> r_type ` set (emitted config s a st)"
proof (cases "crossesLunch config a st")
  case True
  with assms show ?thesis by (simp add: placeActivity_lunch)
next
  case False
  with assms show ?thesis
    using emitted_no_lunch[OF False, of s] lunchInserted_no_lunch[OF False, of s] by simp
qed

lemma placeAll_no_lunch:
  assumes "\<not> w_lunchInserted (placeAll config st ps)"
      and "RLunch \<notin> r_type ` set (w_rows st)"
  shows "RLunch \<notin> r_type ` set (w_rows (placeAll config st ps))"
  using assms
proof (induction ps arbitrary: st)
  case Nil
  then show ?case by simp
next
  case (Cons p ps)
  obtain s a where p: "p = (s, a)" by (cases p)
  have later: "\<not> w_lunchInserted (placeAll config (placeActivity config s a st) ps)"
    using Cons.prems(1) p by simp
  have mono: "\<not> w_lunchInserted (placeActivity config s a st)"
  proof
    assume ins: "w_lunchInserted (placeActivity config s a st)"
    have "\<And>st'. w_lunchInserted st' \<Longrightarrow> w_lunchInserted (placeAll config st' ps)"
    proof (induction ps)
      case Nil
      then show ?case by simp
    next
      case (Cons q qs)
      obtain t b where q: "q = (t, b)" by (cases q)
      have "w_lunchInserted (placeActivity config t b st')"
        using Cons.prems placeActivity_keeps_no_lunch[of config t b st'] by blast
      then show ?case using Cons.IH q by simp
    qed
    with ins later show False by blast
  qed
  have "RLunch \<notin> r_type ` set (w_rows (placeActivity config s a st))"
    using placeActivity_keeps_no_lunch[OF mono] Cons.prems(2) by (auto simp: emitted_append)
  with Cons.IH[OF later] p show ?case by simp
qed

lemma lastSectionId_orderSections:
  "lastSectionId (orderSections sections) =
     (if sections = [] then None else Some (s_id (last (orderSections sections))))"
proof -
  have "orderSections sections = [] \<longleftrightarrow> sections = []"
    using set_orderSections[of sections] by (metis set_empty)
  then show ?thesis by (simp add: lastSectionId_def)
qed

lemma emitted_activity_rows:
  "map r_activity (filter (\<lambda>r. r_type r = RActivity) (emitted config s a st)) = [Some a]"
  by (cases rule: placeActivity_cases[of config a st])
     (simp_all add: emitted_def placeActivity_lunch placeActivity_break placeActivity_plain
        lunchRow_def breakRow_def activityRow_def)

lemma emitted_no_overflow: "ROverflow \<notin> r_type ` set (emitted config s a st)"
  by (cases rule: placeActivity_cases[of config a st])
     (simp_all add: emitted_def placeActivity_lunch placeActivity_break placeActivity_plain
        lunchRow_def breakRow_def activityRow_def)

lemma emitted_section: "r \<in> set (emitted config s a st) \<Longrightarrow> r_sectionId r = Some (s_id s)"
  by (cases rule: placeActivity_cases[of config a st])
     (auto simp: emitted_def placeActivity_lunch placeActivity_break placeActivity_plain
        lunchRow_def breakRow_def activityRow_def)

lemma placeAll_activity_rows:
  "map r_activity (filter (\<lambda>r. r_type r = RActivity) (w_rows (placeAll config st ps))) =
     map r_activity (filter (\<lambda>r. r_type r = RActivity) (w_rows st)) @ map (Some \<circ> snd) ps"
proof (induction ps arbitrary: st)
  case Nil
  show ?case by simp
next
  case (Cons p ps)
  obtain s a where p: "p = (s, a)" by (cases p)
  show ?case
    by (simp add: p Cons.IH emitted_append emitted_activity_rows)
qed

lemma placeAll_no_overflow:
  "ROverflow \<notin> r_type ` set (w_rows st) \<Longrightarrow> ROverflow \<notin> r_type ` set (w_rows (placeAll config st ps))"
proof (induction ps arbitrary: st)
  case Nil
  then show ?case by simp
next
  case (Cons p ps)
  obtain s a where p: "p = (s, a)" by (cases p)
  have "ROverflow \<notin> r_type ` set (w_rows (placeActivity config s a st))"
    using Cons.prems emitted_no_overflow[of config s a st] by (auto simp: emitted_append)
  from Cons.IH[OF this] p show ?case by simp
qed

lemma placeAll_sections:
  assumes "\<forall>r\<in>set (w_rows st). r_sectionId r \<in> S"
      and "\<forall>p\<in>set ps. Some (s_id (fst p)) \<in> S"
  shows "\<forall>r\<in>set (w_rows (placeAll config st ps)). r_sectionId r \<in> S"
  using assms
proof (induction ps arbitrary: st)
  case Nil
  then show ?case by simp
next
  case (Cons p ps)
  obtain s a where p: "p = (s, a)" by (cases p)
  have "\<forall>r\<in>set (w_rows (placeActivity config s a st)). r_sectionId r \<in> S"
    using Cons.prems p emitted_section[of _ config s a st] by (auto simp: emitted_append)
  from Cons.IH[OF this] Cons.prems(2) p show ?case by simp
qed

subsection \<open>Row order and durations in the Direct Walker\<close>







lemma walkFlat_cases:
  obtains (stopped) pre s a post where "ps = pre @ (s, a) # post" "withinDay config st pre"
      "w_clock (placeAll config st (pre @ [(s, a)])) > dayEndMin config"
      "walkFlat config st ps =
         Inl (w_rows (placeAll config st (pre @ [(s, a)])) @
              [overflowRow ''Runs past end of day'' s (w_clock (placeAll config st (pre @ [(s, a)])))
                 (dayEndMin config) (w_clock (placeAll config st (pre @ [(s, a)])))])"
    | (completed) "withinDay config st ps" "walkFlat config st ps = Inr (placeAll config st ps)"
proof (induction ps arbitrary: st thesis)
  case Nil
  then show ?case by simp
next
  case (Cons p ps)
  obtain s a where p: "p = (s, a)" by (cases p)
  let ?st = "placeActivity config s a st"
  show ?case
  proof (cases "w_clock ?st > dayEndMin config")
    case True
    show ?thesis
      by (rule Cons.prems(1)[of "[]" s a ps]) (use True p in \<open>simp_all add: Let_def\<close>)
  next
    case False
    show ?thesis
    proof (rule Cons.IH[of ?st])
      fix pre t b post
      assume "ps = pre @ (t, b) # post" "withinDay config ?st pre"
        "dayEndMin config < w_clock (placeAll config ?st (pre @ [(t, b)]))"
        "walkFlat config ?st ps =
           Inl (w_rows (placeAll config ?st (pre @ [(t, b)])) @
                [overflowRow ''Runs past end of day'' t (w_clock (placeAll config ?st (pre @ [(t, b)])))
                   (dayEndMin config) (w_clock (placeAll config ?st (pre @ [(t, b)])))])"
      then show thesis
        using False p by (intro Cons.prems(1)[of "(s, a) # pre" t b post]) (simp_all add: Let_def)
    next
      assume "withinDay config ?st ps" "walkFlat config ?st ps = Inr (placeAll config ?st ps)"
      then show thesis
        using False p by (intro Cons.prems(2)) (simp_all add: Let_def)
    qed
  qed
qed


lemma walkOrder_sections: "p \<in> set (walkOrder sections activities) \<Longrightarrow> fst p \<in> set sections"
  by (auto simp: walkOrder_def walkPairs_def set_orderSections)




lemma computeSchedule_drop_unknown:
  assumes "a_sectionId a \<notin> s_id ` set sections"
  shows "computeSchedule config sections (pre @ a # post) = computeSchedule config sections (pre @ post)"
  using assms
  by (simp add: computeSchedule_def groupBySection_drop_unknown set_orderSections)


subsection \<open>Injection groups\<close>

lemma addInjection_lookup:
  "addInjection m x k =
     (if i_sectionId x = k then Some (getList m k @ [x]) else m k)"
  by (simp add: addInjection_def getList_def Let_def split: option.splits)

lemma groupInjections_lookup_aux:
  "getList (foldl addInjection m xs) k = getList m k @ filter (\<lambda>x. i_sectionId x = k) xs"
proof (induction xs arbitrary: m)
  case Nil
  show ?case by simp
next
  case (Cons x xs)
  have "getList (foldl addInjection m (x # xs)) k = getList (foldl addInjection (addInjection m x) xs) k"
    by simp
  also have "\<dots> = getList (addInjection m x) k @ filter (\<lambda>x. i_sectionId x = k) xs"
    by (rule Cons.IH)
  also have "\<dots> = getList m k @ filter (\<lambda>x. i_sectionId x = k) (x # xs)"
    by (simp add: getList_def addInjection_lookup)
  finally show ?case .
qed

lemma getList_groupInjections:
  "getList (groupInjections injections) k = filter (\<lambda>x. i_sectionId x = k) injections"
  by (simp add: groupInjections_def groupInjections_lookup_aux) (simp add: getList_def)

lemma getList_map_option: "getList (\<lambda>k. map_option f (m k)) k = (case m k of None \<Rightarrow> [] | Some l \<Rightarrow> f l)"
  by (simp add: getList_def split: option.splits)

lemma sortByAnchor_Nil: "sortByAnchor cmp [] = []"
  by (simp add: sortByAnchor_def)

lemma getList_sortedInjMap:
  "getList (sortedInjMap cmp injections) k =
     sortByAnchor cmp (filter (\<lambda>x. i_sectionId x = k) injections)"
proof -
  have "getList (sortedInjMap cmp injections) k = sortByAnchor cmp (getList (groupInjections injections) k)"
    by (simp add: sortedInjMap_def getList_def sortByAnchor_Nil split: option.splits)
  then show ?thesis by (simp add: getList_groupInjections)
qed

lemma filter_insertByAnchor:
  assumes refl: "reflexiveCompare cmp"
  shows "filter (\<lambda>y. i_anchorBeforeActivityId y = k) (insertByAnchor cmp x xs) =
         filter (\<lambda>y. i_anchorBeforeActivityId y = k) (x # xs)"
proof (induction xs)
  case Nil
  show ?case by simp
next
  case (Cons y ys)
  show ?case
  proof (cases "cmp (i_anchorBeforeActivityId x) (i_anchorBeforeActivityId y) \<le> 0")
    case True
    then show ?thesis by simp
  next
    case False
    then have "i_anchorBeforeActivityId x \<noteq> i_anchorBeforeActivityId y"
      using refl by (auto simp: reflexiveCompare_def)
    with False Cons.IH show ?thesis by auto
  qed
qed

lemma filter_sortByAnchor:
  assumes refl: "reflexiveCompare cmp"
  shows "filter (\<lambda>y. i_anchorBeforeActivityId y = k) (sortByAnchor cmp xs) =
         filter (\<lambda>y. i_anchorBeforeActivityId y = k) xs"
proof (induction xs)
  case Nil
  show ?case by (simp add: sortByAnchor_def)
next
  case (Cons x xs)
  have "sortByAnchor cmp (x # xs) = insertByAnchor cmp x (sortByAnchor cmp xs)"
    by (simp add: sortByAnchor_def)
  then show ?case
    using Cons.IH by (simp add: filter_insertByAnchor[OF refl])
qed

text \<open>The injections placed before an activity, read off the injection list itself.\<close>

lemma anchored_injections:
  assumes refl: "reflexiveCompare cmp"
  shows "filter (\<lambda>x. i_anchorBeforeActivityId x = k) (getList (sortedInjMap cmp injections) sid) =
         filter (\<lambda>x. i_anchorBeforeActivityId x = k \<and> i_sectionId x = sid) injections"
  by (simp add: getList_sortedInjMap filter_sortByAnchor[OF refl] conj_commute)


subsection \<open>The Injection Renderer reads the injections only through their anchors\<close>

lemma renderActivities_cong:
  assumes "\<forall>a\<in>set list. filter (\<lambda>x. i_anchorBeforeActivityId x = a_id a) inj1 =
                         filter (\<lambda>x. i_anchorBeforeActivityId x = a_id a) inj2"
  shows "renderActivities config n s inj1 st list = renderActivities config n s inj2 st list"
  using assms
  by (induction list arbitrary: st) (simp_all add: renderActivity_def split: sum.splits)

lemma renderSections_cong:
  assumes "\<forall>s\<in>set secs. \<forall>a\<in>set (getList bySection (s_id s)).
             filter (\<lambda>x. i_anchorBeforeActivityId x = a_id a) (getList m1 (s_id s)) =
             filter (\<lambda>x. i_anchorBeforeActivityId x = a_id a) (getList m2 (s_id s))"
  shows "renderSections config n bySection m1 st secs = renderSections config n bySection m2 st secs"
  using assms
proof (induction secs arbitrary: st)
  case Nil
  show ?case by simp
next
  case (Cons s secs)
  have "renderActivities config n s (getList m1 (s_id s)) st (getList bySection (s_id s)) =
        renderActivities config n s (getList m2 (s_id s)) st (getList bySection (s_id s))"
    using Cons.prems by (intro renderActivities_cong) simp
  moreover have "renderSections config n bySection m1 st' secs = renderSections config n bySection m2 st' secs" for st'
    using Cons.prems by (intro Cons.IH) simp
  ultimately show ?case by (simp split: sum.splits)
qed

lemma buildScheduleWithInjections_drop_unknown:
  assumes "a_sectionId a \<notin> s_id ` set sections"
  shows "buildScheduleWithInjections cmp config sections (pre @ a # post) injections =
         buildScheduleWithInjections cmp config sections (pre @ post) injections"
  using assms
  by (simp add: buildScheduleWithInjections_def groupBySection_drop_unknown set_orderSections)

subsection \<open>Row order and durations in the Injection Renderer\<close>

lemma outcome_Inl [simp]: "outcome P Q (Inl rows) = P rows"
  by (simp add: outcome_def)

lemma outcome_Inr [simp]: "outcome P Q (Inr st) = Q st"
  by (simp add: outcome_def)
















subsection \<open>The Day-Partitioned Walker\<close>

lemma appendActivities_rows:
  "d_rows (appendActivities s st list) = d_rows st @ contiguousRows s (d_clock st) list"
  by (induction list arbitrary: st) (simp_all add: appendActivity_def)


lemma appendActivities_day:
  "d_currentDayNumber (appendActivities s st list) = d_currentDayNumber st"
  by (induction list arbitrary: st) (simp_all add: appendActivity_def)

lemma contiguousRows_types:
  "r \<in> set (contiguousRows s c list) \<Longrightarrow> r_type r = RActivity \<and> \<not> r_computed r"
  by (induction list arbitrary: c) (auto simp: activityRow_def)





lemma chained_snoc:
  "chained ds (rows @ [r]) \<longleftrightarrow>
     chained ds rows \<and> (rows = [] \<or> r_startMin r = r_endMin (last rows) \<or> r_startMin r = ds)"
  by (induction ds rows rule: chained.induct) auto

lemma appendActivity_chainInv:
  "chainInv ds st \<Longrightarrow> chainInv ds (appendActivity s a st)"
  by (auto simp: chainInv_def appendActivity_def chained_snoc activityRow_def)

lemma appendActivities_chainInv:
  "chainInv ds st \<Longrightarrow> chainInv ds (appendActivities s st list)"
  by (induction list arbitrary: st) (simp_all add: appendActivity_chainInv)

lemma enterSection_chainInv:
  "chainInv (dayStartMin config) st \<Longrightarrow> chainInv (dayStartMin config) (enterSection config s st)"
  by (auto simp: chainInv_def enterSection_def Let_def)

lemma daySections_chainInv:
  "chainInv (dayStartMin config) st \<Longrightarrow> chainInv (dayStartMin config) (daySections config bySection st secs)"
  by (induction secs arbitrary: st) (simp_all add: appendActivities_chainInv enterSection_chainInv)

lemma enterSection_rows: "d_rows (enterSection config s st) = d_rows st"
  by (simp add: enterSection_def Let_def)

lemma daySections_types:
  assumes "\<forall>r\<in>set (d_rows st). r_type r = RActivity \<and> \<not> r_computed r"
  shows "\<forall>r\<in>set (d_rows (daySections config bySection st secs)). r_type r = RActivity \<and> \<not> r_computed r"
  using assms
proof (induction secs arbitrary: st)
  case Nil
  then show ?case by simp
next
  case (Cons s secs)
  show ?case
    using Cons.prems contiguousRows_types
    by (simp, intro Cons.IH) (auto simp: appendActivities_rows enterSection_rows)
qed

lemma enterSection_dayEnd:
  "enterSection (config\<lparr> dayEndMin := e \<rparr>) s st = enterSection config s st"
  by (simp add: enterSection_def Let_def)

lemma daySections_dayEnd:
  "daySections (config\<lparr> dayEndMin := e \<rparr>) bySection st secs = daySections config bySection st secs"
  by (induction secs arbitrary: st) (simp_all add: enterSection_dayEnd)

lemma buildScheduleFromActivities_dayEnd:
  "buildScheduleFromActivities (config\<lparr> dayEndMin := e \<rparr>) sections activities =
   buildScheduleFromActivities config sections activities"
  by (simp add: buildScheduleFromActivities_def daySections_dayEnd initDay_def Let_def)







text \<open>The rows in closed form.\<close>

lemma dayRow_append: "k < length P \<Longrightarrow> dayRow ds (P @ Q) k = dayRow ds P k"
  by (simp add: dayRow_def nth_append)

lemma dayRows_snoc:
  "dayRows ds (P @ [(d, s, a)]) = dayRows ds P @ [activityRow s a (ds + dayMinutes d P)]"
  by (simp add: dayRows_def dayRow_append) (simp add: dayRow_def)

lemma dayMinutes_snoc:
  "dayMinutes day (P @ [(d, s, a)]) = dayMinutes day P + (if d = day then a_durationMin a else 0)"
  by (simp add: dayMinutes_def)

lemma dayMinutes_other:
  assumes "\<forall>e\<in>set P. fst e < day"
  shows "dayMinutes day P = 0"
proof -
  have "filter (\<lambda>e. fst e = day) P = []"
    using assms by (auto simp: filter_empty_conv)
  then show ?thesis by (simp add: dayMinutes_def)
qed

lemma appendActivity_closedInv:
  assumes "closedInv ds st P"
  shows "closedInv ds (appendActivity s a st) (P @ [(d_currentDayNumber st, s, a)])"
  using assms
  by (simp add: closedInv_def appendActivity_def dayRows_snoc dayMinutes_snoc)

lemma appendActivity_day: "d_currentDayNumber (appendActivity s a st) = d_currentDayNumber st"
  by (simp add: appendActivity_def)

lemma appendActivities_closedInv:
  assumes "closedInv ds st P"
  shows "closedInv ds (appendActivities s st list)
           (P @ map (\<lambda>a. (d_currentDayNumber st, s, a)) list)"
  using assms
proof (induction list arbitrary: st P)
  case Nil
  then show ?case by simp
next
  case (Cons a list)
  from Cons.IH[OF appendActivity_closedInv[OF Cons.prems, of s a]]
  show ?case by (simp add: appendActivity_day)
qed

lemma enterSection_closedInv:
  assumes "closedInv (dayStartMin config) st P"
      and "d_currentDayNumber st \<le> orElse (s_dayNumber s) (d_currentDayNumber st)"
  shows "closedInv (dayStartMin config) (enterSection config s st) P"
    and "d_currentDayNumber (enterSection config s st) = orElse (s_dayNumber s) (d_currentDayNumber st)"
proof -
  let ?d = "orElse (s_dayNumber s) (d_currentDayNumber st)"
  show "d_currentDayNumber (enterSection config s st) = ?d"
    by (simp add: enterSection_def Let_def)
  show "closedInv (dayStartMin config) (enterSection config s st) P"
  proof (cases "?d = d_currentDayNumber st")
    case True
    with assms(1) show ?thesis by (simp add: enterSection_def Let_def)
  next
    case False
    with assms(2) have less: "d_currentDayNumber st < ?d" by simp
    have "\<forall>e\<in>set P. fst e < ?d"
      using assms(1) less by (fastforce simp: closedInv_def)
    from dayMinutes_other[OF this] this assms(1) False show ?thesis
      by (auto simp: closedInv_def enterSection_def Let_def intro: less_imp_le)
  qed
qed

lemma daysAhead_step:
  assumes "daysAhead day (s # rest)"
  shows "day \<le> orElse (s_dayNumber s) day" and "daysAhead (orElse (s_dayNumber s) day) rest"
  using assms by (cases "s_dayNumber s"; auto simp: daysAhead_def dayKey_def orElse_def)+

lemma daySections_closedInv:
  assumes "closedInv (dayStartMin config) st P" and "daysAhead (d_currentDayNumber st) secs"
  shows "closedInv (dayStartMin config) (daySections config bySection st secs)
           (P @ dayWalk bySection (d_currentDayNumber st) secs)"
  using assms
proof (induction secs arbitrary: st P)
  case Nil
  then show ?case by simp
next
  case (Cons s secs)
  let ?d = "orElse (s_dayNumber s) (d_currentDayNumber st)"
  let ?st1 = "enterSection config s st"
  let ?st2 = "appendActivities s ?st1 (getList bySection (s_id s))"
  note step = daysAhead_step[OF Cons.prems(2)]
  note enter = enterSection_closedInv[OF Cons.prems(1) step(1)]
  have inv2: "closedInv (dayStartMin config) ?st2
      (P @ map (\<lambda>a. (?d, s, a)) (getList bySection (s_id s)))"
    using appendActivities_closedInv[OF enter(1), of s "getList bySection (s_id s)"]
    by (simp add: enter(2))
  have day2: "d_currentDayNumber ?st2 = ?d"
    by (simp add: appendActivities_day enter(2))
  from Cons.IH[OF inv2] step(2) show ?case
    by (simp add: day2)
qed

lemma dayWalk_days:
  assumes "daysAhead day secs"
  shows "sorted (map fst (dayWalk bySection day secs)) \<and>
         (\<forall>e\<in>set (dayWalk bySection day secs). day \<le> fst e)"
  using assms
proof (induction secs arbitrary: day)
  case Nil
  then show ?case by simp
next
  case (Cons s secs)
  note step = daysAhead_step[OF Cons.prems]
  let ?d = "orElse (s_dayNumber s) day"
  from Cons.IH[OF step(2)]
  have rest: "sorted (map fst (dayWalk bySection ?d secs))"
    and ahead: "\<forall>e\<in>set (dayWalk bySection ?d secs). ?d \<le> fst e"
    by simp_all
  have here: "map fst (map (\<lambda>a. (?d, s, a)) (getList bySection (s_id s))) =
      replicate (length (getList bySection (s_id s))) ?d"
    by (simp add: comp_def map_replicate_const)
  have "sorted (map fst (dayWalk bySection day (s # secs)))"
    using rest ahead by (simp add: sorted_append here del: map_map)
  moreover have "\<forall>e\<in>set (dayWalk bySection day (s # secs)). day \<le> fst e"
    using ahead step(1) by auto
  ultimately show ?case by blast
qed

lemma sorted_dayKey: "sorted (map dayKey (orderSectionsByDay sections))"
proof -
  have "sorted (map (\<lambda>s. (orElse (s_dayNumber s) 1, s_order s)) (orderSectionsByDay sections))"
    unfolding orderSectionsByDay_def by (rule sorted_sort_key)
  then have "sorted_wrt (\<lambda>x y. (orElse (s_dayNumber x) 1, s_order x) \<le> (orElse (s_dayNumber y) 1, s_order y))
      (orderSectionsByDay sections)"
    by (simp add: sorted_map)
  then have "sorted_wrt (\<lambda>x y. dayKey x \<le> dayKey y) (orderSectionsByDay sections)"
    by (rule sorted_wrt_mono_rel[rotated]) (auto simp: dayKey_def less_eq_prod_def)
  then show ?thesis by (simp add: sorted_map)
qed

lemma daysAhead_ordered:
  "daysAhead (firstDay (orderSectionsByDay sections)) (orderSectionsByDay sections)"
proof (cases "orderSectionsByDay sections")
  case Nil
  then show ?thesis by (simp add: daysAhead_def)
next
  case (Cons first rest)
  with sorted_dayKey[of sections] show ?thesis
    by (auto simp: daysAhead_def firstDay_def dayKey_def)
qed

lemma initDay_day: "d_currentDayNumber (initDay config ordered) = firstDay ordered"
  by (simp add: initDay_def firstDay_def)

lemma buildScheduleFromActivities_dayRows:
  "buildScheduleFromActivities config sections activities =
     dayRows (dayStartMin config) (dayWalkOrder sections activities)"
proof -
  let ?ordered = "orderSectionsByDay sections"
  have init: "closedInv (dayStartMin config) (initDay config ?ordered) []"
    by (simp add: closedInv_def initDay_def dayRows_def dayMinutes_def)
  have ahead: "daysAhead (d_currentDayNumber (initDay config ?ordered)) ?ordered"
    by (simp add: initDay_day daysAhead_ordered)
  from daySections_closedInv[OF init ahead, of "groupBySection ?ordered activities"]
  show ?thesis
    by (simp add: closedInv_def buildScheduleFromActivities_def dayWalkOrder_def initDay_day Let_def)
qed

lemma dayWalkOrder_sorted: "sorted (map fst (dayWalkOrder sections activities))"
  unfolding dayWalkOrder_def using dayWalk_days[OF daysAhead_ordered] by blast

lemma buildScheduleFromActivities_drop_unknown:
  assumes "a_sectionId a \<notin> s_id ` set sections"
  shows "buildScheduleFromActivities config sections (pre @ a # post) =
         buildScheduleFromActivities config sections (pre @ post)"
  using assms
  by (simp add: buildScheduleFromActivities_def groupBySection_drop_unknown set_orderSectionsByDay)



subsection \<open>Row order across days\<close>












subsection \<open>The planner and unknown sections\<close>

lemma planWalk_drop_unknown:
  assumes "a_sectionId a \<notin> s_id ` set sections"
  shows "planWalk config sections (pre @ a # post) = planWalk config sections (pre @ post)"
  using assms by (simp add: planWalk_def groupBySection_drop_unknown set_orderSections)

lemma orderSections_Nil: "orderSections sections = [] \<longleftrightarrow> sections = []"
  using set_orderSections[of sections] by (metis set_empty)

lemma finalPostBreak_activities:
  assumes "orderedSections \<noteq> [] \<or> \<not> postBreakOwed config st"
  shows "finalPostBreak config orderedSections acts1 st = finalPostBreak config orderedSections acts2 st"
  using assms by (auto simp: finalPostBreak_def fallbackSectionId_def)

lemma planFinal_drop_unknown:
  assumes "a_sectionId a \<notin> s_id ` set sections"
  shows "planFinal config sections (pre @ a # post) = planFinal config sections (pre @ post)"
proof (cases "sections = []")
  case True
  then show ?thesis
    by (simp add: planFinal_def planWalk_def orderSections_def forceLunch_def finalPostBreak_def
        postBreakOwed_def initPlan_def)
next
  case False
  then have ne: "orderSections sections \<noteq> []" by (simp add: orderSections_Nil)
  have fin: "finalPostBreak config (orderSections sections) (pre @ a # post) st =
             finalPostBreak config (orderSections sections) (pre @ post) st" for st
    using ne by (intro finalPostBreak_activities) simp
  have w: "planWalk config sections (pre @ a # post) = planWalk config sections (pre @ post)"
    using assms by (rule planWalk_drop_unknown)
  have g: "groupBySection (orderSections sections) (pre @ a # post) =
           groupBySection (orderSections sections) (pre @ post)"
    using assms by (intro groupBySection_drop_unknown) (simp add: set_orderSections)
  show ?thesis
    unfolding planFinal_def Let_def w g
    by (cases "planWalk config sections (pre @ post)") (simp_all only: sum.case fin)
qed

lemma planInjections_drop_unknown:
  assumes "a_sectionId a \<notin> s_id ` set sections"
  shows "planInjections config sections (pre @ a # post) = planInjections config sections (pre @ post)"
  using assms by (simp add: planInjections_def planFinal_drop_unknown)

subsection \<open>The time parser\<close>

lemma splitOn_not_Nil: "splitOn sep str \<noteq> []"
  by (induction str) (auto split: list.splits)

lemma hd_splitOn: "hd (splitOn sep str) = takeWhile (\<lambda>c. c \<noteq> sep) str"
  by (induction str) (auto split: list.splits simp: splitOn_not_Nil)

lemma tl_splitOn:
  "tl (splitOn sep str) =
     (if sep \<in> set str then splitOn sep (drop 1 (dropWhile (\<lambda>c. c \<noteq> sep) str)) else [])"
  by (induction str) (auto split: list.splits simp: splitOn_not_Nil)

lemma length_splitOn: "length (splitOn sep str) < 2 \<longleftrightarrow> sep \<notin> set str"
proof -
  have "length (splitOn sep str) = Suc (length (tl (splitOn sep str)))"
    using splitOn_not_Nil[of sep str] by (cases "splitOn sep str") simp_all
  then show ?thesis
    using splitOn_not_Nil[of sep "drop 1 (dropWhile (\<lambda>c. c \<noteq> sep) str)"]
    by (auto simp: tl_splitOn)
qed

lemma splitOn_nth0: "splitOn sep str ! 0 = takeWhile (\<lambda>c. c \<noteq> sep) str"
  using splitOn_not_Nil[of sep str] hd_splitOn[of sep str]
  by (cases "splitOn sep str") simp_all

lemma splitOn_nth1:
  assumes "sep \<in> set str"
  shows "splitOn sep str ! Suc 0 =
           takeWhile (\<lambda>c. c \<noteq> sep) (drop (Suc 0) (dropWhile (\<lambda>c. c \<noteq> sep) str))"
proof -
  have "splitOn sep str ! Suc 0 = hd (tl (splitOn sep str))"
    using splitOn_not_Nil[of sep str] length_splitOn[of sep str] assms
    by (cases "splitOn sep str"; cases "tl (splitOn sep str)") auto
  then show ?thesis using assms by (simp add: tl_splitOn hd_splitOn)
qed

lemma parseTimeToMin_parts:
  "parseTimeToMin Number str =
     (if hasColon str \<and> Number (hourPart str) \<noteq> NaN \<and> Number (minutePart str) \<noteq> NaN
      then Some (numberPlus (numberTimes (Number (hourPart str)) (ofInt 60)) (Number (minutePart str)))
      else None)"
proof (cases "hasColon str")
  case True
  then have "str \<noteq> []" by (auto simp: hasColon_def)
  with True show ?thesis
    using length_splitOn[of 58 str]
    by (simp add: parseTimeToMin_def Let_def hasColon_def hourPart_def minutePart_def
        splitOn_nth0 splitOn_nth1)
next
  case False
  then show ?thesis
    using length_splitOn[of 58 str]
    by (simp add: parseTimeToMin_def Let_def hasColon_def)
qed

subsection \<open>Doubles hold the safe integers exactly\<close>

lemma bitLength_le: "n < 2 ^ k \<Longrightarrow> bitLength n \<le> k"
proof (induction k arbitrary: n)
  case 0
  then show ?case by (simp add: bitLength.simps)
next
  case (Suc k)
  then have "n div 2 < 2 ^ k" by simp
  from Suc.IH[OF this] show ?case by (simp add: bitLength.simps[of n])
qed

lemma less_bitLength: "n < 2 ^ bitLength n"
proof (induction n rule: bitLength.induct)
  case (1 n)
  show ?case
  proof (cases "n \<le> 0")
    case True
    then have "n < 1" by simp
    then show ?thesis by (simp add: bitLength.simps[of n] True)
  next
    case False
    from 1[OF False] have "n div 2 < 2 ^ bitLength (n div 2)" .
    then have "n < 2 * 2 ^ bitLength (n div 2)" by linarith
    then show ?thesis using False by (simp add: bitLength.simps[of n])
  qed
qed

lemma bitLength_pos: "0 < n \<Longrightarrow> 0 < bitLength n"
  by (simp add: bitLength.simps[of n])

lemma roundHalfEven_of_int: "roundHalfEven (of_int k) = k"
  by (simp add: roundHalfEven_def)

lemma roundMagnitude_of_int:
  assumes "0 \<le> n" and "n < 2 ^ 53"
  shows "roundMagnitude (of_int n) = Some (of_int n)"
proof (cases "n = 0")
  case True
  then show ?thesis by (simp add: roundMagnitude_def)
next
  case False
  with assms have pos: "0 < n" by simp
  define b where "b = bitLength n"
  have b1: "0 < b" unfolding b_def using pos by (rule bitLength_pos)
  have b53: "b \<le> 53" unfolding b_def using assms(2) by (rule bitLength_le)
  have nb: "n < 2 ^ b" unfolding b_def by (rule less_bitLength)
  have e: "binaryExponent (of_int n) = int b - 1"
    using pos by (simp add: binaryExponent_def b_def)
  have emax: "max (int b - 1) (- 1022) = int b - 1" using b1 by simp
  have step: "twoTo (int b - 1 - 52) = 1 / 2 ^ (53 - b)"
  proof (cases "b = 53")
    case True
    then show ?thesis by (simp add: twoTo_def)
  next
    case False
    with b53 have "b < 53" by simp
    then have "nat (53 - int b) = 53 - b" by simp
    with \<open>b < 53\<close> show ?thesis by (simp add: twoTo_def)
  qed
  have quot: "of_int n / (1 / 2 ^ (53 - b) :: rat) = of_int (n * 2 ^ (53 - b))"
    by simp
  have "n * 2 ^ (53 - b) < 2 ^ b * 2 ^ (53 - b)"
    using nb by simp
  also have "\<dots> = 2 ^ 53"
    using b53 by (simp flip: power_add)
  finally have m53: "n * 2 ^ (53 - b) < 2 ^ 53" .
  have again: "(of_int (n * 2 ^ (53 - b)) :: rat) * (1 / 2 ^ (53 - b)) = of_int n"
    by simp
  have notTop: "\<not> (1023 < int b - 1 \<or> (int b - 1 = 1023 \<and> 2 ^ 53 \<le> n * 2 ^ (53 - b)))"
    using b53 by simp
  have nz: "(of_int n :: rat) \<noteq> 0" using pos by simp
  show ?thesis
    unfolding roundMagnitude_def Let_def e emax step quot roundHalfEven_of_int again
    using nz notTop by (simp only: if_False option.simps)
qed

lemma toDouble_of_int:
  assumes "0 \<le> n" and "n < 2 ^ 53"
  shows "toDouble negative (of_int n) = Finite negative (of_int n)"
  by (simp add: toDouble_def roundMagnitude_of_int[OF assms])

lemma numberPlus_ofInt:
  assumes "safeInteger (x + y)"
  shows "numberPlus (ofInt x) (ofInt y) = ofInt (x + y)"
proof (cases "x + y = 0")
  case True
  then have "\<not> (x < 0 \<and> y < 0)" by linarith
  moreover have "signedValue (ofInt x) + signedValue (ofInt y) = of_int (x + y)"
    by (simp add: signedValue_def ofInt_def)
  ultimately show ?thesis using True
    by (simp add: numberPlus_def ofInt_def Let_def)
next
  case False
  have v: "signedValue (ofInt x) + signedValue (ofInt y) = of_int (x + y)"
    by (simp add: signedValue_def ofInt_def)
  have abs: "\<bar>of_int (x + y) :: rat\<bar> = of_int \<bar>x + y\<bar>" by simp
  have round: "toDouble (x + y < 0) (of_int \<bar>x + y\<bar>) = Finite (x + y < 0) (of_int \<bar>x + y\<bar>)"
    using assms by (intro toDouble_of_int) (simp_all add: safeInteger_def)
  have nz: "(of_int (x + y) :: rat) \<noteq> 0" using False by simp
  have neg: "((of_int (x + y) :: rat) < 0) = (x + y < 0)" by (rule of_int_less_0_iff)
  show ?thesis
    unfolding numberPlus_def
    apply (simp only: ofInt_def[of x] ofInt_def[of y] prod.case number.case Let_def)
    apply (simp only: flip: ofInt_def[of x] ofInt_def[of y])
    apply (simp only: v nz if_False abs neg round ofInt_def[of "x + y"])
    done
qed

lemma numberTimes_ofInt:
  assumes "0 \<le> x" and "0 \<le> y" and "safeInteger (x * y)"
  shows "numberTimes (ofInt x) (ofInt y) = ofInt (x * y)"
proof -
  have "toDouble False (of_int (x * y)) = Finite False (of_int (x * y))"
    using assms by (intro toDouble_of_int) (simp_all add: safeInteger_def)
  moreover have "0 \<le> x * y"
    using assms(1,2) by (rule mult_nonneg_nonneg)
  ultimately show ?thesis
    using assms(1,2) by (simp add: numberTimes_def ofInt_def not_less)
qed

lemma isDigit_iff: "isDigit c \<longleftrightarrow> 48 \<le> c \<and> c \<le> 57"
  by (auto simp: isDigit_def isDigitOf_def digitValue_def)

lemma digitValue_digit: "isDigit c \<Longrightarrow> 0 \<le> digitValue c \<and> digitValue c \<le> 9"
  by (auto simp: isDigit_iff digitValue_def)

lemma isDigit_not_space: "isDigit c \<Longrightarrow> \<not> isStrWhiteSpace c"
  by (auto simp: isDigit_iff isStrWhiteSpace_def)

lemma decimalValue_snoc: "decimalValue (ds @ [c]) = decimalValue ds * 10 + digitValue c"
  by (simp add: decimalValue_def digitsValue_def)

lemma decimalValue_bounds:
  "list_all isDigit ds \<Longrightarrow> 0 \<le> decimalValue ds \<and> decimalValue ds < 10 ^ length ds"
proof (induction ds rule: rev_induct)
  case Nil
  then show ?case by (simp add: decimalValue_def digitsValue_def)
next
  case (snoc c ds)
  then have ih: "0 \<le> decimalValue ds" "decimalValue ds < 10 ^ length ds"
    and c: "0 \<le> digitValue c" "digitValue c \<le> 9"
    using digitValue_digit[of c] by simp_all
  from ih(2) have "decimalValue ds + 1 \<le> 10 ^ length ds" by simp
  then have "(decimalValue ds + 1) * 10 \<le> 10 ^ length ds * 10" by (rule mult_right_mono) simp
  with ih(1) c show ?case by (simp add: decimalValue_snoc algebra_simps)
qed

lemma trimWhiteSpace_digits:
  assumes "digitsOnly s"
  shows "trimWhiteSpace s = s"
proof -
  from assms obtain c cs where s: "s = c # cs" and c: "isDigit c"
    by (cases s) (auto simp: digitsOnly_def)
  have first: "dropWhile isStrWhiteSpace s = s"
    using c by (simp add: s isDigit_not_space)
  have "isDigit (last s)"
    using assms by (metis digitsOnly_def last_in_set list_all_iff)
  then have "\<not> isStrWhiteSpace (hd (rev s))"
    using assms by (simp add: hd_rev isDigit_not_space digitsOnly_def)
  then have "dropWhile isStrWhiteSpace (rev s) = rev s"
    using s by (cases "rev s") simp_all
  with first show ?thesis by (simp add: trimWhiteSpace_def)
qed

lemma unsignedDecimalLiteral_digits:
  assumes "digitsOnly s"
  shows "unsignedDecimalLiteral negative s = toDouble negative (of_int (decimalValue s))"
proof -
  from assms obtain c cs where s: "s = c # cs" and c: "isDigit c"
    by (cases s) (auto simp: digitsOnly_def)
  have inf: "s \<noteq> units ''Infinity''"
    using c by (auto simp: s units_def isDigit_iff)
  have all: "\<forall>x\<in>set s. isDigit x"
    using assms by (simp add: digitsOnly_def list_all_iff)
  then have whole: "takeWhile isDigit s = s" and rest: "dropWhile isDigit s = []"
    by simp_all
  have "s \<noteq> []" by (simp add: s)
  then show ?thesis
    unfolding unsignedDecimalLiteral_def Let_def whole rest
    using inf by (simp add: tenTo_def decimalValue_def digitsValue_def)
qed

lemma toNumber_digits:
  assumes "digitsOnly s"
  shows "toNumber s = toDouble False (of_int (decimalValue s))"
proof -
  from assms obtain c cs where s: "s = c # cs" and c: "isDigit c"
    by (cases s) (auto simp: digitsOnly_def)
  have sign: "c \<noteq> 43" "c \<noteq> 45"
    using c by (auto simp: isDigit_iff)
  have dec: "strDecimalLiteral s = unsignedDecimalLiteral False s"
    using sign by (simp add: strDecimalLiteral_def s)
  have "strNumericLiteral s = strDecimalLiteral s"
  proof (cases cs)
    case Nil
    then show ?thesis by (simp add: strNumericLiteral_def s)
  next
    case (Cons d ds)
    then have "isDigit d" using assms by (simp add: digitsOnly_def s)
    then have "d \<noteq> 98" "d \<noteq> 66" "d \<noteq> 111" "d \<noteq> 79" "d \<noteq> 120" "d \<noteq> 88"
      by (auto simp: isDigit_iff)
    then show ?thesis by (simp add: strNumericLiteral_def s Cons)
  qed
  with dec show ?thesis
    using trimWhiteSpace_digits[OF assms] unsignedDecimalLiteral_digits[OF assms, of False]
    by (simp add: toNumber_def Let_def s)
qed

lemma ofInt_nonneg: "0 \<le> i \<Longrightarrow> ofInt i = Finite False (of_int i)"
  by (simp add: ofInt_def)

lemma toNumber_short_digits:
  assumes "digitsOnly s" and "length s \<le> 2"
  shows "toNumber s = ofInt (decimalValue s)" and "0 \<le> decimalValue s" and "decimalValue s < 100"
proof -
  have all: "list_all isDigit s" using assms(1) by (simp add: digitsOnly_def)
  from decimalValue_bounds[OF all] have lo: "0 \<le> decimalValue s"
    and hi: "decimalValue s < 10 ^ length s" by simp_all
  have "(10::int) ^ length s \<le> 10 ^ 2"
    using assms(2) by (intro power_increasing) simp_all
  with hi show small: "decimalValue s < 100" by simp
  show "0 \<le> decimalValue s" by (rule lo)
  have "decimalValue s < 2 ^ 53" using small by simp
  from toDouble_of_int[OF lo this, of False] show "toNumber s = ofInt (decimalValue s)"
    by (simp add: toNumber_digits[OF assms(1)] ofInt_nonneg[OF lo])
qed

lemma isDigit_not_colon: "isDigit c \<Longrightarrow> c \<noteq> 58"
  by (auto simp: isDigit_iff)

lemma clockText_parts:
  assumes "clockText hs ms"
  shows "hasColon (hs @ 58 # ms)" and "hourPart (hs @ 58 # ms) = hs"
    and "minutePart (hs @ 58 # ms) = ms" and "digitsOnly hs" and "digitsOnly ms"
    and "length hs \<le> 2" and "length ms \<le> 2"
proof -
  have hs: "\<forall>c\<in>set hs. c \<noteq> 58" and ms: "\<forall>c\<in>set ms. c \<noteq> 58"
    using assms isDigit_not_colon by (auto simp: clockText_def list_all_iff)
  show "hasColon (hs @ 58 # ms)" by (simp add: hasColon_def)
  show "hourPart (hs @ 58 # ms) = hs"
    using hs by (simp add: hourPart_def)
  have "dropWhile (\<lambda>c. c \<noteq> 58) (hs @ 58 # ms) = 58 # ms"
    using hs by simp
  then show "minutePart (hs @ 58 # ms) = ms"
    using ms by (simp add: minutePart_def)
  show "digitsOnly hs" "digitsOnly ms" "length hs \<le> 2" "length ms \<le> 2"
    using assms by (auto simp: clockText_def digitsOnly_def)
qed

lemma ofInt_not_NaN: "ofInt i \<noteq> NaN"
  by (simp add: ofInt_def)

lemma parseTimeToMin_clockText:
  assumes "clockText hs ms"
  shows "parseTimeToMin toNumber (hs @ 58 # ms) = Some (ofInt (decimalValue hs * 60 + decimalValue ms))"
proof -
  note parts = clockText_parts[OF assms]
  note h = toNumber_short_digits[OF parts(4) parts(6)]
  note m = toNumber_short_digits[OF parts(5) parts(7)]
  have "safeInteger (decimalValue hs * 60)"
    using h(2,3) by (simp add: safeInteger_def)
  from numberTimes_ofInt[OF h(2) _ this]
  have times: "numberTimes (ofInt (decimalValue hs)) (ofInt 60) = ofInt (decimalValue hs * 60)"
    by simp
  have "safeInteger (decimalValue hs * 60 + decimalValue ms)"
    using h(2,3) m(2,3) by (simp add: safeInteger_def)
  from numberPlus_ofInt[OF this]
  have plus: "numberPlus (ofInt (decimalValue hs * 60)) (ofInt (decimalValue ms)) =
      ofInt (decimalValue hs * 60 + decimalValue ms)" .
  show ?thesis
    by (simp add: parseTimeToMin_parts parts(1,2,3) h(1) m(1) ofInt_not_NaN times plus)
qed

lemma toNumber_empty: "toNumber [] = ofInt 0"
  by (simp add: toNumber_def trimWhiteSpace_def ofInt_def)

subsection \<open>The planner's bookkeeping\<close>







lemma postBreakInjection_type [simp]: "i_type (postBreakInjection config sid st) = IBreak"
  by (simp add: postBreakInjection_def)

lemma planInjection_simps [simp]:
  "i_type (planInjection p ty l sid d a) = ty"
  "i_anchorBeforeActivityId (planInjection p ty l sid d a) = a"
  by (simp_all add: planInjection_def)


lemma planAnchor_cases:
  "planAnchor config section activity st =
     (if planCrossesLunch config activity st
      then (if \<not> p_preLunchBreakPlanned st \<and> breaksConfigured config
            then lunchAnchored config section activity (preBreakAnchored config section activity st)
            else lunchAnchored config section activity st)
      else if crossesBreak config activity st then breakAnchored config section activity st
      else st)"
  by (simp add: planAnchor_def lunchAnchored_def preBreakAnchored_def breakAnchored_def
      breaksConfigured_def Let_def)







lemma preBreakAnchored_lunchPlanned [simp]:
  "p_lunchPlanned (preBreakAnchored config section activity st) = p_lunchPlanned st"
  by (simp add: preBreakAnchored_def pushInjection_def)








subsection \<open>Breaks before and after lunch\<close>















lemma tagged_push:
  "length (p_days st) = length (p_injections st) \<Longrightarrow>
     tagged (pushInjection x st) = tagged st @ [(p_dayIndex st, x)]"
  by (simp add: tagged_def pushInjection_def)







lemma part_fields [simp]:
  "p_dayIndex (backfilled config section st) = p_dayIndex st"
  "p_lunchPlanned (backfilled config section st) = p_lunchPlanned st"
  "p_preLunchBreakPlanned (backfilled config section st) = p_preLunchBreakPlanned st"
  "p_afterLunchStarted (backfilled config section st) = p_afterLunchStarted st"
  "p_lastActivityIdAfterLunch (backfilled config section st) = p_lastActivityIdAfterLunch st"
  "p_postLunchBreakPlanned (backfilled config section st) =
     (postBreakOwed config st \<or> p_postLunchBreakPlanned st)"
  "p_dayIndex (nextDay st) = p_dayIndex st + 1"
  "p_lunchPlanned (nextDay st) = False"
  "p_preLunchBreakPlanned (nextDay st) = False"
  "p_afterLunchStarted (nextDay st) = False"
  "p_postLunchBreakPlanned (nextDay st) = False"
  "p_dayIndex (preBreakAnchored config section activity st) = p_dayIndex st"
  "p_afterLunchStarted (preBreakAnchored config section activity st) = p_afterLunchStarted st"
  "p_postLunchBreakPlanned (preBreakAnchored config section activity st) = p_postLunchBreakPlanned st"
  "length (p_days (preBreakAnchored config section activity st)) = Suc (length (p_days st))"
  "length (p_injections (preBreakAnchored config section activity st)) = Suc (length (p_injections st))"
  "p_dayIndex (lunchAnchored config section activity st) = p_dayIndex st"
  "p_lunchPlanned (lunchAnchored config section activity st) = True"
  "p_preLunchBreakPlanned (lunchAnchored config section activity st) = p_preLunchBreakPlanned st"
  "p_afterLunchStarted (lunchAnchored config section activity st) = True"
  "p_postLunchBreakPlanned (lunchAnchored config section activity st) = p_postLunchBreakPlanned st"
  "p_dayIndex (breakAnchored config section activity st) = p_dayIndex st"
  "p_lunchPlanned (breakAnchored config section activity st) = p_lunchPlanned st"
  "p_preLunchBreakPlanned (breakAnchored config section activity st) = p_preLunchBreakPlanned st"
  "p_afterLunchStarted (breakAnchored config section activity st) = p_afterLunchStarted st"
  "p_postLunchBreakPlanned (breakAnchored config section activity st) =
     (p_afterLunchStarted st \<or> p_postLunchBreakPlanned st)"
  "p_dayIndex (planAdvance activity st) = p_dayIndex st"
  "p_lunchPlanned (planAdvance activity st) = p_lunchPlanned st"
  "p_preLunchBreakPlanned (planAdvance activity st) = p_preLunchBreakPlanned st"
  "p_afterLunchStarted (planAdvance activity st) = p_afterLunchStarted st"
  "p_postLunchBreakPlanned (planAdvance activity st) = p_postLunchBreakPlanned st"
  "p_lastActivityIdAfterLunch (planAdvance activity st) =
     (if p_afterLunchStarted st then Some (a_id activity) else p_lastActivityIdAfterLunch st)"
  by (auto simp: backfilled_def nextDay_def preBreakAnchored_def lunchAnchored_def breakAnchored_def
        planAdvance_def pushInjection_def)

subsection \<open>The break before lunch, step by step\<close>






subsection \<open>The break after lunch, step by step\<close>







lemma planAnchor_dayIndex [simp]: "p_dayIndex (planAnchor config section activity st) = p_dayIndex st"
  by (simp add: planAnchor_cases)

lemma planAnchor_after:
  "p_afterLunchStarted (planAnchor config section activity st) \<and>
   \<not> planCrossesLunch config activity st \<longrightarrow> p_afterLunchStarted st"
  by (simp add: planAnchor_cases)




subsection \<open>The planner's loops and its last steps\<close>

















subsection \<open>The first activity that overruns the day\<close>

lemma overflow_at_first_trigger:
  assumes order: "walkOrder sections activities = pre @ (s, a) # post"
      and within: "withinDay config (initWalk config) pre"
      and over: "w_clock (placeAll config (initWalk config) (pre @ [(s, a)])) > dayEndMin config"
  shows "computeSchedule config sections activities =
           w_rows (placeAll config (initWalk config) (pre @ [(s, a)])) @
           [overflowRow ''Runs past end of day'' s
              (w_clock (placeAll config (initWalk config) (pre @ [(s, a)])))
              (dayEndMin config)
              (w_clock (placeAll config (initWalk config) (pre @ [(s, a)])))]
       \<and> r_type (last (computeSchedule config sections activities)) = ROverflow
       \<and> r_startMin (last (computeSchedule config sections activities)) = dayEndMin config
       \<and> r_endMin (last (computeSchedule config sections activities)) =
           w_clock (placeAll config (initWalk config) (pre @ [(s, a)]))
       \<and> ROverflow \<notin> r_type ` set (w_rows (placeAll config (initWalk config) (pre @ [(s, a)])))
       \<and> map r_activity (filter (\<lambda>r. r_type r = RActivity)
            (w_rows (placeAll config (initWalk config) (pre @ [(s, a)])))) =
          map (Some \<circ> snd) (pre @ [(s, a)])
       \<and> (\<forall>r\<in>set (w_rows (placeAll config (initWalk config) (pre @ [(s, a)]))).
            r_sectionId r \<in> (\<lambda>p. Some (s_id (fst p))) ` set (pre @ [(s, a)]))"
proof -
  let ?st = "placeAll config (initWalk config) pre"
  let ?fin = "placeAll config (initWalk config) (pre @ [(s, a)])"
  have fin: "?fin = placeActivity config s a ?st"
    by (simp add: placeAll_append)
  have "directWalk config sections activities = walkFlat config ?st ((s, a) # post)"
    using order within by (simp add: directWalk_flat walkFlat_within_append)
  also have "\<dots> = Inl (w_rows ?fin @
       [overflowRow ''Runs past end of day'' s (w_clock ?fin) (dayEndMin config) (w_clock ?fin)])"
    using over by (simp add: fin Let_def)
  finally have out: "computeSchedule config sections activities =
       w_rows ?fin @ [overflowRow ''Runs past end of day'' s (w_clock ?fin) (dayEndMin config) (w_clock ?fin)]"
    by (simp add: computeSchedule_directWalk)
  have noov: "ROverflow \<notin> r_type ` set (w_rows ?fin)"
    by (rule placeAll_no_overflow) (simp add: initWalk_def)
  have acts: "map r_activity (filter (\<lambda>r. r_type r = RActivity) (w_rows ?fin)) =
                map (Some \<circ> snd) (pre @ [(s, a)])"
    by (simp only: placeAll_activity_rows) (simp add: initWalk_def)
  have secs: "\<forall>r\<in>set (w_rows ?fin). r_sectionId r \<in> (\<lambda>p. Some (s_id (fst p))) ` set (pre @ [(s, a)])"
    by (rule placeAll_sections) (simp_all add: initWalk_def)
  have lastrow: "r_type (last (computeSchedule config sections activities)) = ROverflow"
      "r_startMin (last (computeSchedule config sections activities)) = dayEndMin config"
      "r_endMin (last (computeSchedule config sections activities)) = w_clock ?fin"
    by (simp_all add: out overflowRow_def)
  from out lastrow noov acts secs show ?thesis by blast
qed


section \<open>The claims\<close>

subsection \<open>C1: row order and activity durations\<close>




subsection \<open>C2: the break scenario\<close>

text \<open>
  Claim C2 puts the third activity at [620,650) with no break before it. On the code the
  break timer stands at 45 minutes after the second activity, and \<open>45 + 30 > 60\<close>: a second
  break is due, so the rows are not the four rows of the claim.
\<close>

theorem break_scenario_counterexample:
  "map (\<lambda>r. (r_type r, r_startMin r, r_endMin r))
     (computeSchedule breakConfig oneSection threeActivities) \<noteq>
   [(RActivity, 540, 560), (RBreak, 560, 575), (RActivity, 575, 620), (RActivity, 620, 650)]"
  by code_simp

text \<open>
  Claim C2 as amended. With the day from 540 to 960, one section, activities of 20, 45 and
  30 minutes, a break interval of 60 and a break duration of 15 minutes and no lunch, the
  Direct Walker returns exactly five rows: activity 1 at [540,560), a break at [560,575),
  activity 2 at [575,620), a second break at [620,635) and activity 3 at [635,665).
\<close>

theorem break_scenario_rows:
  fixes s :: Section and a1 a2 a3 :: Activity and n :: "int option"
  defines "config \<equiv> \<lparr> dayStartMin = 540, dayEndMin = 960, numberOfDays = n,
        breakIntervalMin = Some 60, breakDurationMin = Some 15,
        lunchTargetMin = None, lunchDurationMin = None \<rparr>"
  defines "b1 \<equiv> a1\<lparr> a_durationMin := 20, a_sectionId := s_id s \<rparr>"
  defines "b2 \<equiv> a2\<lparr> a_durationMin := 45, a_sectionId := s_id s \<rparr>"
  defines "b3 \<equiv> a3\<lparr> a_durationMin := 30, a_sectionId := s_id s \<rparr>"
  shows "computeSchedule config [s] [b1, b2, b3] =
     [ activityRow s b1 540,
       \<lparr> r_id = ''Break-560'', r_type = RBreak, r_sectionId = Some (s_id s),
         r_startMin = 560, r_endMin = 575, r_computed = True, r_activity = None, r_label = Some ''Break'' \<rparr>,
       activityRow s b2 575,
       \<lparr> r_id = ''Break-620'', r_type = RBreak, r_sectionId = Some (s_id s),
         r_startMin = 620, r_endMin = 635, r_computed = True, r_activity = None, r_label = Some ''Break'' \<rparr>,
       activityRow s b3 635 ]"
proof -
  have n560: "showInt 560 = ''560''" by code_simp
  have n620: "showInt 620 = ''620''" by code_simp
  show ?thesis
    unfolding config_def b1_def b2_def b3_def
    by (simp add: computeSchedule_def orderSections_def groupBySection_def emptyGroups_def
        pushActivity_def getList_def initWalk_def placeActivity_def insertPause_def needBreak_def
        crossesLunch_def truthy_def pushBreak_Break finishWalk_def finalLunchDue_def Let_def
        n560 n620)
qed

subsection \<open>C3: overflow ends the walk\<close>

text \<open>
  Claim C3. Suppose that in the Direct Walker the clock exceeds \<^verbatim>\<open>dayEndMin\<close> after placing
  some activity. Then the walk order splits at the first such activity \<open>a\<close>, in section
  \<open>s\<close>, and the output is the rows placed up to and including \<open>a\<close> followed by one overflow
  row: that row is the last one, it starts at \<^verbatim>\<open>dayEndMin\<close> and ends at the clock, no other
  row is an overflow row, the activity rows are exactly those of the activities up to
  \<open>a\<close>, and every row belongs to the section of one of them; nothing of the activities
  and sections after \<open>a\<close> appears.
\<close>

theorem overflow_ends_walk:
  assumes "\<not> withinDay config (initWalk config) (walkOrder sections activities)"
  shows "\<exists>pre s a post.
           walkOrder sections activities = pre @ (s, a) # post
         \<and> withinDay config (initWalk config) pre
         \<and> dayEndMin config < w_clock (placeAll config (initWalk config) (pre @ [(s, a)]))
         \<and> computeSchedule config sections activities =
             w_rows (placeAll config (initWalk config) (pre @ [(s, a)])) @
             [overflowRow ''Runs past end of day'' s
                (w_clock (placeAll config (initWalk config) (pre @ [(s, a)])))
                (dayEndMin config)
                (w_clock (placeAll config (initWalk config) (pre @ [(s, a)])))]
         \<and> r_type (last (computeSchedule config sections activities)) = ROverflow
         \<and> r_startMin (last (computeSchedule config sections activities)) = dayEndMin config
         \<and> r_endMin (last (computeSchedule config sections activities)) =
             w_clock (placeAll config (initWalk config) (pre @ [(s, a)]))
         \<and> ROverflow \<notin> r_type ` set (w_rows (placeAll config (initWalk config) (pre @ [(s, a)])))
         \<and> map r_activity (filter (\<lambda>r. r_type r = RActivity)
              (w_rows (placeAll config (initWalk config) (pre @ [(s, a)])))) =
            map (Some \<circ> snd) (pre @ [(s, a)])
         \<and> (\<forall>r\<in>set (w_rows (placeAll config (initWalk config) (pre @ [(s, a)]))).
              r_sectionId r \<in> (\<lambda>p. Some (s_id (fst p))) ` set (pre @ [(s, a)]))"
proof (cases rule: walkFlat_cases[of "walkOrder sections activities" config "initWalk config"])
  case (stopped pre s a post)
  from overflow_at_first_trigger[OF stopped(1,2,3)] stopped(1,2,3)
  show ?thesis by blast
next
  case completed
  with assms show ?thesis by simp
qed

theorem overflow_ends_walk_witness:
  "\<not> withinDay shortDayConfig (initWalk shortDayConfig) (walkOrder oneSection threeActivities)
   \<and> r_type (last (computeSchedule shortDayConfig oneSection threeActivities)) = ROverflow
   \<and> r_startMin (last (computeSchedule shortDayConfig oneSection threeActivities)) = 600
   \<and> map r_id (computeSchedule shortDayConfig oneSection threeActivities) =
       [''a1'', ''a2'', ''overflow-605'']"
proof -
  have over: "\<not> withinDay shortDayConfig (initWalk shortDayConfig) (walkOrder oneSection threeActivities)"
    by code_simp
  have dayEnd: "dayEndMin shortDayConfig = 600" by code_simp
  have rows: "map r_id (computeSchedule shortDayConfig oneSection threeActivities) =
       [''a1'', ''a2'', ''overflow-605'']"
    by code_simp
  from overflow_ends_walk[OF over] over dayEnd rows
  show ?thesis by auto
qed

subsection \<open>C4: lunch before an activity\<close>

text \<open>
  Claim C4 has the lunch row emitted exactly when
  \<^verbatim>\<open>clock < lunchTargetMin <= clock + durationMin\<close>. The code compares strictly on both
  sides: an activity that ends exactly at the lunch target does not cross it. With the
  clock at 540, the target at 560 and a 20 minute activity the only row emitted is the
  activity's.
\<close>

theorem lunch_boundary_counterexample:
  "w_clock (initWalk (lunchConfig 560)) < the (lunchTargetMin (lunchConfig 560))
   \<and> the (lunchTargetMin (lunchConfig 560)) \<le>
       w_clock (initWalk (lunchConfig 560)) + a_durationMin (exampleActivity ''a1'' 20 ''s1'')
   \<and> map r_type (emitted (lunchConfig 560) (exampleSection ''s1'' 1 None)
        (exampleActivity ''a1'' 20 ''s1'') (initWalk (lunchConfig 560))) = [RActivity]"
  by code_simp

text \<open>
  Claim C4 as amended. While \<^verbatim>\<open>lunchTargetMin\<close> and \<^verbatim>\<open>lunchDurationMin\<close> are configured
  (present and not zero) and no lunch has been inserted, one iteration of the Direct Walker
  emits a lunch row exactly when \<^verbatim>\<open>clock < lunchTargetMin < clock + durationMin\<close>. In that
  case the rows emitted are the lunch row and then the activity's row and nothing else,
  also when a break is due; the lunch flag is set and the clock has advanced by the lunch
  duration before the activity is placed. Otherwise the flag stays unset.
\<close>

theorem lunch_before_activity:
  assumes "truthy (lunchTargetMin config)" and "truthy (lunchDurationMin config)"
      and "\<not> w_lunchInserted st"
  shows "(RLunch \<in> r_type ` set (emitted config s a st) \<longleftrightarrow>
            w_clock st < the (lunchTargetMin config) \<and>
            the (lunchTargetMin config) < w_clock st + a_durationMin a)
       \<and> (w_clock st < the (lunchTargetMin config) \<and>
          the (lunchTargetMin config) < w_clock st + a_durationMin a \<longrightarrow>
            emitted config s a st =
              [lunchRow (Some (s_id s)) (w_clock st) (the (lunchDurationMin config)),
               activityRow s a (w_clock st + the (lunchDurationMin config))] \<and>
            w_lunchInserted (placeActivity config s a st) \<and>
            w_clock (placeActivity config s a st) =
              w_clock st + the (lunchDurationMin config) + a_durationMin a)
       \<and> (\<not> (w_clock st < the (lunchTargetMin config) \<and>
             the (lunchTargetMin config) < w_clock st + a_durationMin a) \<longrightarrow>
            \<not> w_lunchInserted (placeActivity config s a st))"
proof -
  let ?cross = "w_clock st < the (lunchTargetMin config) \<and>
                the (lunchTargetMin config) < w_clock st + a_durationMin a"
  have iff: "crossesLunch config a st \<longleftrightarrow> ?cross"
    using assms by (simp add: crossesLunch_def)
  show ?thesis
  proof (cases "crossesLunch config a st")
    case True
    then have "RLunch \<in> r_type ` set (emitted config s a st)"
      by (simp add: emitted_lunch lunchRow_def)
    with True iff show ?thesis
      by (simp add: emitted_lunch placeActivity_lunch)
  next
    case False
    with iff assms(3) show ?thesis
      using emitted_no_lunch[OF False, of s] lunchInserted_no_lunch[OF False, of s] by simp
  qed
qed

theorem lunch_before_activity_witness:
  "map r_type (emitted (lunchConfig 550) (exampleSection ''s1'' 1 None)
     (exampleActivity ''a1'' 20 ''s1'') (initWalk (lunchConfig 550))) = [RLunch, RActivity]
   \<and> w_clock (placeActivity (lunchConfig 550) (exampleSection ''s1'' 1 None)
        (exampleActivity ''a1'' 20 ''s1'') (initWalk (lunchConfig 550))) = 620"
proof -
  let ?c = "lunchConfig 550"
  have t: "truthy (lunchTargetMin ?c)" and d: "truthy (lunchDurationMin ?c)"
    and i: "\<not> w_lunchInserted (initWalk ?c)"
    by code_simp+
  have cross: "w_clock (initWalk ?c) < the (lunchTargetMin ?c) \<and>
      the (lunchTargetMin ?c) < w_clock (initWalk ?c) + a_durationMin (exampleActivity ''a1'' 20 ''s1'')"
    by code_simp
  have vals: "w_clock (initWalk ?c) + the (lunchDurationMin ?c) +
      a_durationMin (exampleActivity ''a1'' 20 ''s1'') = 620"
    by code_simp
  from lunch_before_activity[OF t d i, of "exampleSection ''s1'' 1 None" "exampleActivity ''a1'' 20 ''s1''"]
    cross vals
  show ?thesis by (simp add: lunchRow_def activityRow_def)
qed

subsection \<open>C5: lunches and breaks of the Injection Planner\<close>




subsection \<open>C6: the lunch appended after the walk\<close>

text \<open>
  Claim C6 has the final lunch appended if and only if the lunch target is within the day
  bounds. The code tests the target against the day's start only, and the clock (not the
  target) against the day's end. With the day from 540 to 600 and the target at 720 the
  walk over one 30 minute activity completes without lunch, and the lunch row is appended
  although the target lies after the day's end.
\<close>

theorem final_lunch_counterexample:
  "(case directWalk lateLunchConfig oneSection [exampleActivity ''a1'' 30 ''s1''] of
      Inl rows \<Rightarrow> False | Inr st \<Rightarrow> \<not> w_lunchInserted st)
   \<and> dayEndMin lateLunchConfig < the (lunchTargetMin lateLunchConfig)
   \<and> map r_type (computeSchedule lateLunchConfig oneSection [exampleActivity ''a1'' 30 ''s1'']) =
       [RActivity, RLunch]"
  by code_simp

text \<open>
  Claim C6 as amended. When \<^verbatim>\<open>lunchTargetMin\<close> and \<^verbatim>\<open>lunchDurationMin\<close> are configured and
  the walk of the Direct Walker completes in state \<open>st\<close> without having inserted lunch, the
  output is the rows of the walk, none of them a lunch row, followed by one lunch row if
  and only if \<^verbatim>\<open>clock <= dayEndMin\<close> and \<^verbatim>\<open>lunchTargetMin >= dayStartMin\<close>. That row starts
  at the clock, lasts \<^verbatim>\<open>lunchDurationMin\<close> and its section is the last section in display
  order, or null when there is no section. A target within the day bounds is one case in
  which the row is appended.
\<close>

theorem final_lunch:
  assumes "truthy (lunchTargetMin config)" and "truthy (lunchDurationMin config)"
      and "directWalk config sections activities = Inr st"
      and "\<not> w_lunchInserted st"
  shows "computeSchedule config sections activities =
           (if w_clock st \<le> dayEndMin config \<and> dayStartMin config \<le> the (lunchTargetMin config)
            then w_rows st @
                 [lunchRow (if sections = [] then None else Some (s_id (last (orderSections sections))))
                    (w_clock st) (the (lunchDurationMin config))]
            else w_rows st)
       \<and> RLunch \<notin> r_type ` set (w_rows st)
       \<and> (dayStartMin config \<le> the (lunchTargetMin config) \<and>
          the (lunchTargetMin config) \<le> dayEndMin config \<longrightarrow> w_clock st \<le> dayEndMin config)"
proof -
  have flat: "walkFlat config (initWalk config) (walkOrder sections activities) = Inr st"
    using assms(3) by (simp add: directWalk_flat)
  then have within: "withinDay config (initWalk config) (walkOrder sections activities)"
    and st: "st = placeAll config (initWalk config) (walkOrder sections activities)"
    by (simp_all add: walkFlat_Inr_iff)
  have rows: "computeSchedule config sections activities =
           (if w_clock st \<le> dayEndMin config \<and> dayStartMin config \<le> the (lunchTargetMin config)
            then w_rows st @
                 [lunchRow (if sections = [] then None else Some (s_id (last (orderSections sections))))
                    (w_clock st) (the (lunchDurationMin config))]
            else w_rows st)"
    using assms
    by (simp add: computeSchedule_directWalk finishWalk_def finalLunchDue_def pushBreak_Lunch_row
        lastSectionId_orderSections)
  have nolunch: "RLunch \<notin> r_type ` set (w_rows st)"
    using placeAll_no_lunch[of config "initWalk config" "walkOrder sections activities"] assms(4)
    by (simp add: st initWalk_def)
  have bound: "w_clock st \<le> dayEndMin config"
    if "dayStartMin config \<le> the (lunchTargetMin config)"
       "the (lunchTargetMin config) \<le> dayEndMin config"
  proof (cases "walkOrder sections activities = []")
    case True
    with st that show ?thesis by (simp add: initWalk_def)
  next
    case False
    with within st show ?thesis by (simp add: withinDay_clock)
  qed
  from rows nolunch bound show ?thesis by blast
qed

theorem final_lunch_witness:
  "computeSchedule lateLunchConfig oneSection [exampleActivity ''a1'' 30 ''s1''] =
     [activityRow (exampleSection ''s1'' 1 None) (exampleActivity ''a1'' 30 ''s1'') 540,
      lunchRow (Some ''s1'') 570 60]"
proof -
  let ?c = "lateLunchConfig"
  let ?st = "\<lparr> w_rows = [activityRow (exampleSection ''s1'' 1 None) (exampleActivity ''a1'' 30 ''s1'') 540],
               w_clock = 570, w_minutesSinceBreak = 30, w_lunchInserted = False \<rparr>"
  have t: "truthy (lunchTargetMin ?c)" and d: "truthy (lunchDurationMin ?c)"
    by code_simp+
  have walk: "directWalk ?c oneSection [exampleActivity ''a1'' 30 ''s1''] = Inr ?st"
    by code_simp
  have i: "\<not> w_lunchInserted ?st" by simp
  have vals: "dayEndMin ?c = 600" "dayStartMin ?c = 540" "the (lunchTargetMin ?c) = 720"
      "the (lunchDurationMin ?c) = 60" "oneSection \<noteq> []"
      "s_id (last (orderSections oneSection)) = ''s1''"
    by code_simp+
  from final_lunch[OF t d walk i] show ?thesis
    by (simp add: vals)
qed

subsection \<open>C7: an injection whose anchor is gone\<close>

text \<open>
  Claim C7. An injection whose \<^verbatim>\<open>anchorBeforeActivityId\<close> is the id of no activity of the
  activity list changes nothing: the Injection Renderer returns the rows it returns for
  the injection list without it. The function is total, so there is no error to report.
  \<^verbatim>\<open>localeCompare\<close> is asked only to compare a text equal to itself.
\<close>

theorem orphan_injection_inert:
  assumes "reflexiveCompare localeCompare"
      and "i_anchorBeforeActivityId x \<notin> a_id ` set activities"
  shows "buildScheduleWithInjections localeCompare config sections activities (pre @ x # post) =
         buildScheduleWithInjections localeCompare config sections activities (pre @ post)"
proof -
  let ?ordered = "orderSections sections"
  let ?by = "groupBySection ?ordered activities"
  have "renderSections config (numDaysOf config) ?by (sortedInjMap localeCompare (pre @ x # post))
          (initRender config) ?ordered =
        renderSections config (numDaysOf config) ?by (sortedInjMap localeCompare (pre @ post))
          (initRender config) ?ordered"
  proof (rule renderSections_cong, intro ballI)
    fix s a
    assume "a \<in> set (getList ?by (s_id s))"
    then have "a \<in> set activities"
      by (auto simp: getList_groupBySection split: if_splits)
    then have "i_anchorBeforeActivityId x \<noteq> a_id a"
      using assms(2) by auto
    then show "filter (\<lambda>x. i_anchorBeforeActivityId x = a_id a)
                 (getList (sortedInjMap localeCompare (pre @ x # post)) (s_id s)) =
               filter (\<lambda>x. i_anchorBeforeActivityId x = a_id a)
                 (getList (sortedInjMap localeCompare (pre @ post)) (s_id s))"
      by (simp add: anchored_injections[OF assms(1)])
  qed
  then show ?thesis by (simp add: buildScheduleWithInjections_def Let_def)
qed

theorem orphan_injection_inert_witness:
  "buildScheduleWithInjections codeUnitCompare breakConfig oneSection threeActivities
     (orphanInjection # oneInjection) =
   buildScheduleWithInjections codeUnitCompare breakConfig oneSection threeActivities oneInjection
   \<and> map r_id (buildScheduleWithInjections codeUnitCompare breakConfig oneSection threeActivities
        (orphanInjection # oneInjection)) = [''a1'', ''inj-break-a2'', ''a2'', ''a3'']"
proof -
  have refl: "reflexiveCompare codeUnitCompare"
    unfolding reflexiveCompare_def
  proof
    fix i show "codeUnitCompare i i = 0" by (induction i) simp_all
  qed
  have gone: "i_anchorBeforeActivityId orphanInjection \<notin> a_id ` set threeActivities"
    by code_simp
  have rows: "map r_id (buildScheduleWithInjections codeUnitCompare breakConfig oneSection
      threeActivities oneInjection) = [''a1'', ''inj-break-a2'', ''a2'', ''a3'']"
    by code_simp
  from orphan_injection_inert[OF refl gone, of breakConfig oneSection "[]" oneInjection] rows
  show ?thesis by simp
qed

subsection \<open>C8: the Day-Partitioned Walker never rolls over\<close>

text \<open>
  Claim C8. The Day-Partitioned Walker visits the sections by day and order and tracks a
  day: the day number of the section being walked or, for a section without one, the day
  tracked before. Its output is one activity row, not synthesized, for every activity
  visited and nothing else, so there is no overflow row; and the row of an activity
  starts at \<^verbatim>\<open>dayStartMin\<close> plus the minutes of all activities visited before it under the
  same tracked day. So the clock starts again at \<^verbatim>\<open>dayStartMin\<close> exactly with the first
  activity of a new tracked day, and within a day every activity starts where the one
  before it ended, whatever \<^verbatim>\<open>dayEndMin\<close> is: the output does not depend on \<^verbatim>\<open>dayEndMin\<close> at
  all. The tracked day never goes back.
\<close>

theorem day_walker_never_rolls_over:
  "buildScheduleFromActivities config sections activities =
     dayRows (dayStartMin config) (dayWalkOrder sections activities)
   \<and> sorted (map fst (dayWalkOrder sections activities))
   \<and> (\<forall>r\<in>set (buildScheduleFromActivities config sections activities).
        r_type r = RActivity \<and> \<not> r_computed r)
   \<and> buildScheduleFromActivities (config\<lparr> dayEndMin := e \<rparr>) sections activities =
     buildScheduleFromActivities config sections activities
   \<and> chained (dayStartMin config) (buildScheduleFromActivities config sections activities)"
proof -
  let ?ordered = "orderSectionsByDay sections"
  let ?init = "initDay config ?ordered"
  let ?by = "groupBySection ?ordered activities"
  have types: "\<forall>r\<in>set (buildScheduleFromActivities config sections activities).
       r_type r = RActivity \<and> \<not> r_computed r"
    unfolding buildScheduleFromActivities_def Let_def
    by (rule daySections_types) (simp add: initDay_def)
  have "chainInv (dayStartMin config) ?init"
    by (simp add: chainInv_def initDay_def)
  then have "chainInv (dayStartMin config) (daySections config ?by ?init ?ordered)"
    by (rule daySections_chainInv)
  then have chain: "chained (dayStartMin config) (buildScheduleFromActivities config sections activities)"
    by (simp add: chainInv_def buildScheduleFromActivities_def Let_def)
  from types chain buildScheduleFromActivities_dayRows[of config sections activities]
    dayWalkOrder_sorted[of sections activities]
    buildScheduleFromActivities_dayEnd[where config = config and e = e and sections = sections and activities = activities]
  show ?thesis by blast
qed

theorem day_walker_never_rolls_over_witness:
  "map r_startMin (buildScheduleFromActivities shortDayConfig oneSection threeActivities) =
     [540, 560, 605]
   \<and> map r_startMin (buildScheduleFromActivities shortDayConfig threeSections threeSectionActivities) =
     [540, 540, 585]
   \<and> map fst (dayWalkOrder threeSections threeSectionActivities) = [1, 2, 2]
   \<and> r_type (hd (buildScheduleFromActivities shortDayConfig oneSection threeActivities)) = RActivity
   \<and> buildScheduleFromActivities (shortDayConfig\<lparr> dayEndMin := 960 \<rparr>) oneSection threeActivities =
     buildScheduleFromActivities shortDayConfig oneSection threeActivities"
proof -
  let ?rows = "buildScheduleFromActivities shortDayConfig oneSection threeActivities"
  have rows: "map r_startMin (dayRows (dayStartMin shortDayConfig) (dayWalkOrder oneSection threeActivities)) =
      [540, 560, 605]"
    by code_simp
  have rows3: "map r_startMin (dayRows (dayStartMin shortDayConfig)
      (dayWalkOrder threeSections threeSectionActivities)) = [540, 540, 585]"
    by code_simp
  have days: "map fst (dayWalkOrder threeSections threeSectionActivities) = [1, 2, 2]"
    by code_simp
  note thm1 = day_walker_never_rolls_over[of shortDayConfig oneSection threeActivities 960]
  note thm3 = day_walker_never_rolls_over[of shortDayConfig threeSections threeSectionActivities 960]
  from thm1 rows have r1: "map r_startMin ?rows = [540, 560, 605]" by simp
  then have "?rows \<noteq> []" by auto
  then have first: "hd ?rows \<in> set ?rows" by simp
  from thm1 thm3 rows rows3 days first r1 show ?thesis by simp
qed

subsection \<open>C9: the time parser\<close>

text \<open>
  Claim C9 has the parser return null exactly on malformed text: text without a colon or
  with an hour or minute part that is not numeric. \<^verbatim>\<open>Number('')\<close> is \<open>0\<close>, so an empty part
  counts as zero: the text \<^verbatim>\<open>12:\<close>, whose minute part is empty, parses to 720.
\<close>

theorem parseTime_counterexample:
  "malformedTime (units ''12:'') \<and> parseTimeToMin toNumber (units ''12:'') = Some (ofInt 720)"
  by code_simp

text \<open>
  Claim C9 as amended. The parser never fails otherwise than by returning null. Whatever
  function \<^verbatim>\<open>Number\<close> is, it returns null exactly when the text is empty, has no colon, or
  \<^verbatim>\<open>Number\<close> gives \<^verbatim>\<open>NaN\<close> for the hour part or for the minute part; otherwise it returns
  \<^verbatim>\<open>Number\<close> of the hour part times sixty plus \<^verbatim>\<open>Number\<close> of the minute part. With
  ECMAScript's \<^verbatim>\<open>Number\<close> the empty part is the number \<open>0\<close>, and for \<^verbatim>\<open>H:MM\<close> and \<^verbatim>\<open>HH:MM\<close>
  digit text the result is the integer sixty times the hours plus the minutes.
\<close>

theorem parseTime_null_cases:
  "(parseTimeToMin Number str = None \<longleftrightarrow>
      str = [] \<or> \<not> hasColon str \<or> Number (hourPart str) = NaN \<or> Number (minutePart str) = NaN)
   \<and> (parseTimeToMin Number str \<noteq> None \<longrightarrow>
        parseTimeToMin Number str =
          Some (numberPlus (numberTimes (Number (hourPart str)) (ofInt 60)) (Number (minutePart str))))
   \<and> (clockText hs ms \<longrightarrow>
        parseTimeToMin toNumber (hs @ 58 # ms) = Some (ofInt (decimalValue hs * 60 + decimalValue ms)))
   \<and> toNumber [] = ofInt 0"
proof -
  have "str = [] \<Longrightarrow> \<not> hasColon str" by (simp add: hasColon_def)
  then have null: "parseTimeToMin Number str = None \<longleftrightarrow>
      str = [] \<or> \<not> hasColon str \<or> Number (hourPart str) = NaN \<or> Number (minutePart str) = NaN"
    by (auto simp: parseTimeToMin_parts)
  have val: "parseTimeToMin Number str \<noteq> None \<longrightarrow>
        parseTimeToMin Number str =
          Some (numberPlus (numberTimes (Number (hourPart str)) (ofInt 60)) (Number (minutePart str)))"
    by (simp add: parseTimeToMin_parts)
  from null val parseTimeToMin_clockText toNumber_empty show ?thesis by blast
qed

theorem parseTime_null_cases_witness:
  "parseTimeToMin toNumber (units ''8:30'') = Some (ofInt 510)
   \<and> parseTimeToMin toNumber (units ''0830'') = None
   \<and> parseTimeToMin toNumber (units ''1.5:00'') = Some (ofInt 90)
   \<and> parseTimeToMin toNumber (units ''0x10:00'') = Some (ofInt 960)"
proof -
  have c: "clockText (units ''8'') (units ''30'')" by code_simp
  have v: "decimalValue (units ''8'') * 60 + decimalValue (units ''30'') = 510" by code_simp
  have t: "units ''8'' @ 58 # units ''30'' = units ''8:30''" by code_simp
  have n: "\<not> hasColon (units ''0830'')" by code_simp
  have f: "parseTimeToMin toNumber (units ''1.5:00'') = Some (ofInt 90)" by code_simp
  have x: "parseTimeToMin toNumber (units ''0x10:00'') = Some (ofInt 960)" by code_simp
  from parseTime_null_cases[of toNumber "units ''0830''" "units ''8''" "units ''30''"] c v n t f x
  show ?thesis by simp
qed

subsection \<open>C10: activities of unknown sections\<close>

text \<open>
  Claim C10. An activity whose \<^verbatim>\<open>sectionId\<close> is the id of no section leaves the result of
  each of the four functions as it is without that activity: it contributes no row and no
  injection and moves neither the clock nor the break and lunch state.
\<close>

theorem unknown_section_omitted:
  assumes "a_sectionId a \<notin> s_id ` set sections"
  shows "computeSchedule config sections (pre @ a # post) =
           computeSchedule config sections (pre @ post)
       \<and> planInjections config sections (pre @ a # post) =
           planInjections config sections (pre @ post)
       \<and> buildScheduleWithInjections localeCompare config sections (pre @ a # post) injections =
           buildScheduleWithInjections localeCompare config sections (pre @ post) injections
       \<and> buildScheduleFromActivities config sections (pre @ a # post) =
           buildScheduleFromActivities config sections (pre @ post)"
  using assms
  by (simp add: computeSchedule_drop_unknown planInjections_drop_unknown
      buildScheduleWithInjections_drop_unknown buildScheduleFromActivities_drop_unknown)

theorem unknown_section_omitted_witness:
  "computeSchedule lunchDayConfig oneSection (strayActivity # threeActivities) =
     computeSchedule lunchDayConfig oneSection threeActivities
   \<and> planInjections lunchDayConfig oneSection (strayActivity # threeActivities) =
     planInjections lunchDayConfig oneSection threeActivities
   \<and> map r_id (buildScheduleFromActivities lunchDayConfig oneSection (strayActivity # threeActivities)) =
     [''a1'', ''a2'', ''a3'']"
proof -
  have stray: "a_sectionId strayActivity \<notin> s_id ` set oneSection" by code_simp
  have rows: "map r_id (buildScheduleFromActivities lunchDayConfig oneSection threeActivities) =
     [''a1'', ''a2'', ''a3'']"
    by code_simp
  from unknown_section_omitted[OF stray, of lunchDayConfig "[]" threeActivities] rows
  show ?thesis by simp
qed

end
